theory Spec2Isabelle
  imports Complex_Main "HOL-Library.Multiset" "HOL-Library.Product_Lexorder"
begin

section \<open>The notebook session: clock, console and remote calls\<close>

text \<open>
  Both notebooks drive the remote service from one Python kernel. The parts of the
  kernel state their polling loops touch are the wall clock (advanced by
  \<^verbatim>\<open>time.sleep\<close>), the console (what \<^verbatim>\<open>print\<close> wrote) and the
  requests sent to the service. All of it is threaded explicitly.
\<close>

datatype out_line =
    Banner string
  | StatusLine nat string

datatype api_call =
    StartDataIngestionJob
  | DescribeDataIngestionJob string
  | ListInferenceExecutions "int option" "int option" "string option"

record session =
  clock :: nat
  stdout :: "out_line list"
  requests :: "api_call list"

definition sleep :: "nat \<Rightarrow> session \<Rightarrow> session" where
  "sleep n s = s\<lparr>clock := clock s + n\<rparr>"

definition print_line :: "out_line \<Rightarrow> session \<Rightarrow> session" where
  "print_line l s = s\<lparr>stdout := stdout s @ [l]\<rparr>"

definition request :: "api_call \<Rightarrow> session \<Rightarrow> session" where
  "request c s = s\<lparr>requests := requests s @ [c]\<rparr>"

section \<open>Ingestion job polling (dataset creation notebook)\<close>

text \<open>
  \<^verbatim>\<open>
  data_ingestion_job_id = response['JobId']
  data_ingestion_status = response['Status']
  print("=====Polling Data Ingestion Status=====\n")
  print(str(pd.to_datetime(datetime.now()))[:19], "|", data_ingestion_status)
  while data_ingestion_status == 'IN_PROGRESS':
      time.sleep(60)
      describe_data_ingestion_job_response = lookout_client.describe_data_ingestion_job(JobId=data_ingestion_job_id)
      data_ingestion_status = describe_data_ingestion_job_response['Status']
      print(str(pd.to_datetime(datetime.now()))[:19], "|", data_ingestion_status)
  print("\n=====End of Polling Data Ingestion Status=====")
  \<close>
  The service is the function \<open>describe\<close>: the status it reports for a job id when
  asked at a given time. A printed status line is the pair of the clock and the
  status; the line terminators inside the printed banners are left out. The loop may run forever, so it is a partial function: \<open>None\<close> is the
  run that never leaves the loop.
\<close>

partial_function (option) ingestion_wait ::
  "(string \<Rightarrow> nat \<Rightarrow> string) \<Rightarrow> string \<Rightarrow> string \<Rightarrow> session \<Rightarrow> (string \<times> session) option"
where
  "ingestion_wait describe job_id status s =
     (if status = ''IN_PROGRESS'' then
        (let s1 = sleep 60 s;
             s2 = request (DescribeDataIngestionJob job_id) s1;
             status' = describe job_id (clock s2);
             s3 = print_line (StatusLine (clock s2) status') s2
         in ingestion_wait describe job_id status' s3)
      else Some (status, s))"

definition poll_data_ingestion ::
  "(string \<Rightarrow> nat \<Rightarrow> string) \<Rightarrow> string \<Rightarrow> string \<Rightarrow> session \<Rightarrow> (string \<times> session) option"
where
  "poll_data_ingestion describe job_id status0 s =
     (let s1 = print_line (Banner ''=====Polling Data Ingestion Status====='') s;
          s2 = print_line (StatusLine (clock s1) status0) s1
      in case ingestion_wait describe job_id status0 s2 of
           None \<Rightarrow> None
         | Some (status, s3) \<Rightarrow>
             Some (status, print_line (Banner ''=====End of Polling Data Ingestion Status====='') s3))"

text \<open>The status seen at the \<open>j\<close>-th check: the start response first, then one
  \<^verbatim>\<open>describe\<close> per minute.\<close>

definition status_at :: "(string \<Rightarrow> nat \<Rightarrow> string) \<Rightarrow> string \<Rightarrow> string \<Rightarrow> nat \<Rightarrow> nat \<Rightarrow> string" where
  "status_at describe job_id status0 t0 j =
     (if j = 0 then status0 else describe job_id (t0 + 60 * j))"

section \<open>Waiting for the first inference execution (scheduling notebook)\<close>

text \<open>
  \<^verbatim>\<open>
  START_TIME_FOR_INFERENCE_EXECUTIONS = None
  END_TIME_FOR_INFERENCE_EXECUTIONS = None
  EXECUTION_STATUS = None
  execution_summaries = []
  while len(execution_summaries) == 0:
      execution_summaries = scheduler.list_inference_executions(
          start_time=START_TIME_FOR_INFERENCE_EXECUTIONS,
          end_time=END_TIME_FOR_INFERENCE_EXECUTIONS,
          execution_status=EXECUTION_STATUS)
      if len(execution_summaries) == 0:
          print('WAITING FOR THE FIRST INFERENCE EXECUTION')
          time.sleep(60)
      else:
          print('FIRST INFERENCE EXECUTED\n')
          break
  \<close>
  The method \<^verbatim>\<open>list_inference_executions\<close> is a parameter here: \<open>list_exec f t\<close> is
  what it returns when called with the filters \<open>f\<close> at time \<open>t\<close>. The loop has no
  bound, so it is a partial function as well.
\<close>

record list_filters =
  start_time :: "int option"
  end_time :: "int option"
  execution_status :: "string option"

definition list_request :: "list_filters \<Rightarrow> api_call" where
  "list_request f = ListInferenceExecutions (start_time f) (end_time f) (execution_status f)"

partial_function (option) await_first_execution ::
  "(list_filters \<Rightarrow> nat \<Rightarrow> 'e list) \<Rightarrow> list_filters \<Rightarrow> session \<Rightarrow> ('e list \<times> session) option"
where
  "await_first_execution list_exec f s =
     (let s1 = request (list_request f) s;
          execution_summaries = list_exec f (clock s1)
      in if length execution_summaries = 0 then
           await_first_execution list_exec f
             (sleep 60 (print_line (Banner ''WAITING FOR THE FIRST INFERENCE EXECUTION'') s1))
         else
           Some (execution_summaries, print_line (Banner ''FIRST INFERENCE EXECUTED'') s1))"

section \<open>Downloading and aggregating the inference results (scheduling notebook)\<close>

text \<open>
  The exceptions the aggregation cell can raise. \<open>EvalError\<close> stands for whatever
  \<^verbatim>\<open>eval\<close> raised on a line, with the name of the exception, and \<open>OtherError\<close> for
  any other exception of a library call, by name.
\<close>

datatype py_error =
    KeyError string
  | IndexError
  | FileNotFoundError string
  | TypeError
  | ValueError
  | OtherError string
  | EvalError string

text \<open>
  The Python values a results line can evaluate to. A dict is the list of its items in
  insertion order, with distinct keys; \<open>PyObject\<close> is any object of another type,
  named by its \<^verbatim>\<open>repr\<close>.
\<close>

datatype pyval =
    PyNone
  | PyBool bool
  | PyInt int
  | PyFloat rat
  | PyStr string
  | PyList "pyval list"
  | PyDict "(pyval \<times> pyval) list"
  | PyObject string

text \<open>
  One element of \<^verbatim>\<open>scheduler.execution_summaries\<close>, as the service returns it:
  \<^verbatim>\<open>CustomerResultObject\<close> is the pair of \<^verbatim>\<open>Bucket\<close> and \<^verbatim>\<open>Key\<close> and may be absent.
\<close>

record execution_summary =
  ScheduledStartTime :: int
  DataStartTime :: int
  DataEndTime :: int
  Status :: string
  CustomerResultObject :: "(string \<times> string) option"

text \<open>
  \<^verbatim>\<open>key.split('/')\<close>: the pieces between the separators, one more than there are
  separators; \<open>piece\<close> is the piece being read.
\<close>

fun split_from :: "char \<Rightarrow> string \<Rightarrow> string \<Rightarrow> string list" where
  "split_from c piece [] = [piece]"
| "split_from c piece (x # xs) =
     (if x = c then piece # split_from c [] xs else split_from c (piece @ [x]) xs)"

definition split_on :: "char \<Rightarrow> string \<Rightarrow> string list" where
  "split_on c s = split_from c [] s"

text \<open>\<^verbatim>\<open>xs[-2]\<close>: raises \<^verbatim>\<open>IndexError\<close> on a list of fewer than two elements.\<close>

definition penultimate :: "'a list \<Rightarrow> py_error + 'a" where
  "penultimate xs =
     (if length xs < 2 then Inl IndexError else Inr (xs ! (length xs - 2)))"

text \<open>\<^verbatim>\<open>os.path.join\<close> on a POSIX system, one component at a time.\<close>

definition path_join :: "string \<Rightarrow> string \<Rightarrow> string" where
  "path_join a b =
     (if b \<noteq> [] \<and> hd b = CHR ''/'' then b
      else if a = [] \<or> last a = CHR ''/'' then a @ b
      else a @ ''/'' @ b)"

definition local_fname :: "string \<Rightarrow> string \<Rightarrow> string" where
  "local_fname inference_data current_timestamp =
     path_join (path_join inference_data ''output'')
       (''centrifugal-pump_'' @ current_timestamp @ ''.jsonl'')"

definition s3_fname :: "string \<Rightarrow> string \<Rightarrow> string" where
  "s3_fname bucket key = ''s3://'' @ bucket @ ''/'' @ key"

text \<open>
  The state of the notebook as far as the cell reads or writes it: the list object
  \<^verbatim>\<open>scheduler.execution_summaries\<close> the loop runs over, the global
  \<^verbatim>\<open>INFERENCE_DATA\<close>, the accumulator \<^verbatim>\<open>results_json\<close>, the variable \<^verbatim>\<open>content\<close>,
  the list a comprehension in progress has built so far (\<open>comprehension\<close>, empty
  outside of one), the local files (path and lines, the most recent write first), the
  shell lines run and the number of progress dots printed.
\<close>

record kernel =
  execution_summaries :: "execution_summary list"
  inference_data :: string
  results_json :: "pyval list"
  content :: "pyval list"
  comprehension :: "pyval list"
  files :: "(string \<times> string list) list"
  shell :: "string list"
  dots :: nat

text \<open>
  What the cell calls and does not define. Each is a parameter:
  \<^item> \<open>py_eval\<close> is Python's \<^verbatim>\<open>eval\<close>. It runs in the notebook's namespace: besides
    returning a value or raising, it may change any part of the state.
  \<^item> \<open>s3_fetch\<close> is what \<^verbatim>\<open>aws s3 cp --quiet URL FILE\<close> writes to \<^verbatim>\<open>FILE\<close> when
    the two names are single shell words: the lines of the object, or \<open>None\<close> when
    the command copies nothing.
  \<^item> \<open>shell_other\<close> is what the shell line does to the local files when one of the
    two names is not a single plain word (a space or a shell metacharacter splits or
    rewrites the line).
  \<^item> \<open>pd_to_datetime\<close> is \<^verbatim>\<open>pd.to_datetime\<close> on the whole \<^verbatim>\<open>timestamp\<close> column,
    a missing cell being \<open>None\<close>.
  \<^item> \<open>frame_other\<close> is what \<^verbatim>\<open>pd.DataFrame\<close> and the column lookup make of a list
    that is neither a list of dicts nor a list of scalars (pandas reads lists, tuples
    and other objects each in its own way): the exception raised, or the cells of the
    \<^verbatim>\<open>timestamp\<close> column, one per element.
  \<^item> \<open>tie_rank\<close> is the order in which \<^verbatim>\<open>sort_index\<close> leaves rows of equal index:
    the rank of each row position, given the column.

  The tools themselves are fixed during a run: an evaluation that rebinds \<^verbatim>\<open>pd\<close>,
  \<^verbatim>\<open>os\<close> or \<^verbatim>\<open>open\<close> is not described.
\<close>

datatype stamp = NaT | Naive int | Aware int

record tools =
  py_eval :: "string \<Rightarrow> kernel \<Rightarrow> (py_error + pyval) \<times> kernel"
  s3_fetch :: "string \<Rightarrow> string list option"
  shell_other :: "string \<Rightarrow> (string \<times> string list) list \<Rightarrow> (string \<times> string list) list"
  pd_to_datetime :: "pyval option list \<Rightarrow> py_error + stamp list"
  frame_other :: "pyval list \<Rightarrow> py_error + pyval option list"
  tie_rank :: "stamp list \<Rightarrow> nat \<Rightarrow> nat"

text \<open>
  \<^verbatim>\<open>!aws s3 cp --quiet $s3_fname $local_fname\<close>. The notebook puts the two strings
  into the line unquoted and hands it to the shell. A name made of letters, digits and
  the characters \<^verbatim>\<open>_-./:\<close>, not starting with a dash, stays one word that no shell
  rewrites; then the command copies the object to the local file or, when it cannot,
  changes nothing. A failing command raises nothing in the notebook.
\<close>

definition plain_char :: "char \<Rightarrow> bool" where
  "plain_char c =
     (c \<in> set ''abcdefghijklmnopqrstuvwxyzABCDEFGHIJKLMNOPQRSTUVWXYZ0123456789_-./:'')"

definition plain_word :: "string \<Rightarrow> bool" where
  "plain_word s = (s \<noteq> [] \<and> hd s \<noteq> CHR ''-'' \<and> list_all plain_char s)"

definition cp_command :: "string \<Rightarrow> string \<Rightarrow> string" where
  "cp_command url fname = ''aws s3 cp --quiet '' @ url @ '' '' @ fname"

definition aws_s3_cp :: "tools \<Rightarrow> string \<Rightarrow> string \<Rightarrow> kernel \<Rightarrow> kernel" where
  "aws_s3_cp T url fname k =
     k\<lparr>files :=
         (if plain_word url \<and> plain_word fname then
            (case s3_fetch T url of
               None \<Rightarrow> files k
             | Some lines \<Rightarrow> (fname, lines) # files k)
          else shell_other T (cp_command url fname) (files k)),
       shell := shell k @ [cp_command url fname]\<rparr>"

text \<open>\<^verbatim>\<open>open(local_fname, 'r')\<close> and \<^verbatim>\<open>f.readlines()\<close>.\<close>

definition readlines :: "kernel \<Rightarrow> string \<Rightarrow> py_error + string list" where
  "readlines k fname =
     (case map_of (files k) fname of
        None \<Rightarrow> Inl (FileNotFoundError fname)
      | Some lines \<Rightarrow> Inr lines)"

text \<open>
  \<^verbatim>\<open>content = [eval(line) for line in f.readlines()]\<close>. The lines are read before the
  first evaluation. Each evaluation sees and may change the state, the values
  collected so far included (they are objects it may hold a reference to); the first
  line on which it raises ends the comprehension, with the state as it is then. The
  variable \<^verbatim>\<open>content\<close> is bound only when the comprehension has finished.
\<close>

fun eval_lines ::
  "(string \<Rightarrow> kernel \<Rightarrow> (py_error + pyval) \<times> kernel) \<Rightarrow> string list \<Rightarrow> kernel \<Rightarrow> py_error \<times> kernel + kernel"
where
  "eval_lines ev [] k = Inr k"
| "eval_lines ev (line # lines) k =
     (case ev line k of
        (Inl e, k') \<Rightarrow> Inl (e, k')
      | (Inr v, k') \<Rightarrow> eval_lines ev lines (k'\<lparr>comprehension := comprehension k' @ [v]\<rparr>))"

text \<open>
  The body of the loop over \<^verbatim>\<open>scheduler.execution_summaries\<close>:
  \<^verbatim>\<open>
  print('.', end='')
  status = execution_summary['Status']
  if status == 'SUCCESS':
      bucket = execution_summary['CustomerResultObject']['Bucket']
      key = execution_summary['CustomerResultObject']['Key']
      current_timestamp = key.split('/')[-2]
      local_fname = os.path.join(INFERENCE_DATA, 'output', f'centrifugal-pump_{current_timestamp}.jsonl')
      s3_fname = f's3://{bucket}/{key}'
      !aws s3 cp --quiet $s3_fname $local_fname
      with open(local_fname, 'r') as f:
          content = [eval(line) for line in f.readlines()]
          results_json = results_json + content
  \<close>
  An exception leaves the state as it was when it was raised: the error value carries
  that state. The list of a comprehension that raises is lost, and \<^verbatim>\<open>content\<close> and
  \<^verbatim>\<open>results_json\<close> keep the values they had.
\<close>

definition collect_execution :: "tools \<Rightarrow> kernel \<Rightarrow> execution_summary \<Rightarrow> py_error \<times> kernel + kernel" where
  "collect_execution T k0 execution_summary =
     (let k = k0\<lparr>dots := dots k0 + 1\<rparr>
      in if Status execution_summary = ''SUCCESS'' then
           (case CustomerResultObject execution_summary of
              None \<Rightarrow> Inl (KeyError ''CustomerResultObject'', k)
            | Some (bucket, key) \<Rightarrow>
                (case penultimate (split_on CHR ''/'' key) of
                   Inl e \<Rightarrow> Inl (e, k)
                 | Inr current_timestamp \<Rightarrow>
                     (let fname = local_fname (inference_data k) current_timestamp;
                          k' = aws_s3_cp T (s3_fname bucket key) fname k
                      in case readlines k' fname of
                           Inl e \<Rightarrow> Inl (e, k')
                         | Inr lines \<Rightarrow>
                             (case eval_lines (py_eval T) lines (k'\<lparr>comprehension := []\<rparr>) of
                                Inl (e, k'') \<Rightarrow> Inl (e, k''\<lparr>comprehension := []\<rparr>)
                              | Inr k'' \<Rightarrow>
                                  Inr (k''\<lparr>content := comprehension k'',
                                          results_json := results_json k'' @ comprehension k'',
                                          comprehension := []\<rparr>)))))
         else Inr k)"

text \<open>
  \<^verbatim>\<open>for execution_summary in scheduler.execution_summaries:\<close> runs over the list
  object by position and looks at its length before every step, so an evaluation that
  changes the list changes what the loop sees, and one that keeps adding to it keeps
  the loop running: the loop is a partial function of the position and the state.
\<close>

partial_function (option) collect_from :: "tools \<Rightarrow> nat \<Rightarrow> kernel \<Rightarrow> (py_error \<times> kernel + kernel) option" where
  "collect_from T i k =
     (if i < length (execution_summaries k) then
        (case collect_execution T k (execution_summaries k ! i) of
           Inl ek \<Rightarrow> Some (Inl ek)
         | Inr k' \<Rightarrow> collect_from T (Suc i) k')
      else Some (Inr k))"

text \<open>
  The frame:
  \<^verbatim>\<open>
  results_df = pd.DataFrame(results_json)
  results_df['timestamp'] = pd.to_datetime(results_df['timestamp'])
  results_df = results_df.set_index('timestamp')
  results_df = results_df.sort_index()
  \<close>
  A list of dicts gives one row per dict, and the column \<^verbatim>\<open>timestamp\<close> exists when
  some dict has the key, a dict without it having a missing cell there. An empty list
  and a list of scalars give a frame without that column, and the lookup raises
  \<^verbatim>\<open>KeyError\<close>. Any other list (one holding a list or another object, or mixing
  dicts with other values) is left to \<open>frame_other\<close>.
\<close>

definition is_dict :: "pyval \<Rightarrow> bool" where
  "is_dict v = (case v of PyDict d \<Rightarrow> True | _ \<Rightarrow> False)"

definition is_scalar :: "pyval \<Rightarrow> bool" where
  "is_scalar v = (case v of PyDict d \<Rightarrow> False | PyList xs \<Rightarrow> False | PyObject r \<Rightarrow> False | _ \<Rightarrow> True)"

definition timestamp_cell :: "pyval \<Rightarrow> pyval option" where
  "timestamp_cell v = (case v of PyDict d \<Rightarrow> map_of d (PyStr ''timestamp'') | _ \<Rightarrow> None)"

definition frame_column :: "tools \<Rightarrow> pyval list \<Rightarrow> py_error + pyval option list" where
  "frame_column T vs =
     (if list_all is_dict vs then
        (if list_all (\<lambda>v. timestamp_cell v = None) vs then Inl (KeyError ''timestamp'')
         else Inr (map timestamp_cell vs))
      else if list_all is_scalar vs then Inl (KeyError ''timestamp'')
      else frame_other T vs)"

text \<open>
  \<^verbatim>\<open>pd.to_datetime\<close> converts the column as a whole. \<^verbatim>\<open>set_index\<close> moves it into the
  index without any check for repeated values. \<^verbatim>\<open>sort_index\<close> orders the rows by
  the index, \<^verbatim>\<open>NaT\<close> last; it raises \<^verbatim>\<open>TypeError\<close> on an index that holds both
  timestamps without and with a timezone, which cannot be compared. Rows of equal
  index come in the order \<open>tie_rank\<close> gives. A row of the timeline is the index
  value together with the position, in \<^verbatim>\<open>results_json\<close>, of the record whose data
  the row holds (as pandas stores them).
\<close>

type_synonym timeline = "(stamp \<times> nat) list"

definition is_naive :: "stamp \<Rightarrow> bool" where
  "is_naive s = (case s of Naive t \<Rightarrow> True | _ \<Rightarrow> False)"

definition is_aware :: "stamp \<Rightarrow> bool" where
  "is_aware s = (case s of Aware t \<Rightarrow> True | _ \<Rightarrow> False)"

definition stamp_key :: "stamp \<Rightarrow> bool \<times> int" where
  "stamp_key s = (case s of NaT \<Rightarrow> (True, 0) | Naive t \<Rightarrow> (False, t) | Aware t \<Rightarrow> (False, t))"

definition build_results_df :: "tools \<Rightarrow> pyval list \<Rightarrow> py_error + timeline" where
  "build_results_df T results =
     (case frame_column T results of
        Inl e \<Rightarrow> Inl e
      | Inr cells \<Rightarrow>
          (case pd_to_datetime T cells of
             Inl e \<Rightarrow> Inl e
           | Inr stamps \<Rightarrow>
               if list_ex is_naive stamps \<and> list_ex is_aware stamps then Inl TypeError
               else Inr (sort_key (\<lambda>row. (stamp_key (fst row), tie_rank T stamps (snd row)))
                           (zip stamps [0..<length cells]))))"

text \<open>
  The whole cell. Its first statement, \<^verbatim>\<open>_ = scheduler.list_inference_executions()\<close>,
  refreshes \<^verbatim>\<open>scheduler.execution_summaries\<close>; the list it leaves there is the one
  in the state given. The accumulator \<^verbatim>\<open>results_json\<close> starts empty in every run of
  the cell. The result is \<open>None\<close> when the loop never ends, an exception with the
  state it left, or the final state with the timeline.
\<close>

definition aggregate_results :: "tools \<Rightarrow> kernel \<Rightarrow> (py_error \<times> kernel + kernel \<times> timeline) option" where
  "aggregate_results T k =
     (case collect_from T 0 (k\<lparr>results_json := []\<rparr>) of
        None \<Rightarrow> None
      | Some (Inl ek) \<Rightarrow> Some (Inl ek)
      | Some (Inr k') \<Rightarrow>
          (case build_results_df T (results_json k') of
             Inl e \<Rightarrow> Some (Inl (e, k'))
           | Inr results_df \<Rightarrow> Some (Inr (k', results_df))))"

text \<open>
  For stating what a run does. The evaluation returns the values \<open>vs\<close> on the lines
  whatever the state and leaves the state as it is:
\<close>

definition pure_values ::
  "(string \<Rightarrow> kernel \<Rightarrow> (py_error + pyval) \<times> kernel) \<Rightarrow> string list \<Rightarrow> pyval list \<Rightarrow> bool"
where
  "pure_values ev lines vs = list_all2 (\<lambda>line v. \<forall>k. ev line k = (Inr v, k)) lines vs"

text \<open>
  The lines the copy of an execution's object delivers: the object is referenced, its
  key has a folder part, both names are plain words and the command finds the object.
\<close>

definition delivered :: "tools \<Rightarrow> string \<Rightarrow> execution_summary \<Rightarrow> string list option" where
  "delivered T idir execution_summary =
     (case CustomerResultObject execution_summary of
        None \<Rightarrow> None
      | Some (bucket, key) \<Rightarrow>
          (case penultimate (split_on CHR ''/'' key) of
             Inl e \<Rightarrow> None
           | Inr current_timestamp \<Rightarrow>
               if plain_word (s3_fname bucket key) \<and> plain_word (local_fname idir current_timestamp)
               then s3_fetch T (s3_fname bucket key)
               else None))"

text \<open>
  An execution goes through with the records \<open>c\<close>: it is not a success and \<open>c\<close> is
  empty, or its object is delivered and the evaluation returns \<open>c\<close> on its lines.
\<close>

definition goes_through :: "tools \<Rightarrow> string \<Rightarrow> execution_summary \<Rightarrow> pyval list \<Rightarrow> bool" where
  "goes_through T idir execution_summary c =
     (if Status execution_summary = ''SUCCESS'' then
        (case delivered T idir execution_summary of
           None \<Rightarrow> False
         | Some lines \<Rightarrow> pure_values (py_eval T) lines c)
      else c = [])"

text \<open>A record with a timestamp item, and the instant of an index value.\<close>

definition has_timestamp :: "pyval \<Rightarrow> bool" where
  "has_timestamp v = (timestamp_cell v \<noteq> None)"


definition instant :: "stamp \<Rightarrow> int" where
  "instant s = (case s of NaT \<Rightarrow> 0 | Naive t \<Rightarrow> t | Aware t \<Rightarrow> t)"

text \<open>
  The state \<open>k'\<close> is the state \<open>k\<close> after \<open>n\<close> more passes through the loop
  body: the records \<open>rs\<close> added to \<^verbatim>\<open>results_json\<close>, \<open>n\<close> more dots printed,
  \<open>m\<close> more shell lines run, the list of summaries and \<^verbatim>\<open>INFERENCE_DATA\<close> as they
  were.
\<close>

definition advanced :: "kernel \<Rightarrow> kernel \<Rightarrow> pyval list \<Rightarrow> nat \<Rightarrow> nat \<Rightarrow> bool" where
  "advanced k k' rs n m =
     (results_json k' = results_json k @ rs
      \<and> dots k' = dots k + n
      \<and> length (shell k') = length (shell k) + m
      \<and> execution_summaries k' = execution_summaries k
      \<and> inference_data k' = inference_data k)"

definition successes :: "execution_summary list \<Rightarrow> nat" where
  "successes es = length (filter (\<lambda>e. Status e = ''SUCCESS'') es)"


section \<open>Sample data\<close>

text \<open>
  Concrete inputs for the examples below: results objects in the layout the scheduler
  writes (one folder per execution, named by its time, holding \<^verbatim>\<open>results.jsonl\<close>),
  what \<^verbatim>\<open>eval\<close> does on their lines (it changes nothing; the last three lines of
  the table are valid expressions that are not JSON records), and what \<^verbatim>\<open>pd.to_datetime\<close>
  makes of their timestamps (seconds since the epoch, the one with an offset being
  timezone-aware). Outside these tables the samples raise. No statement below depends
  on the order the sample gives to rows of equal index.
\<close>

definition sample_record :: "string \<Rightarrow> int \<Rightarrow> pyval" where
  "sample_record t p = PyDict [(PyStr ''timestamp'', PyStr t), (PyStr ''prediction'', PyInt p)]"

definition sample_eval :: "string \<Rightarrow> kernel \<Rightarrow> (py_error + pyval) \<times> kernel" where
  "sample_eval line k =
     (case map_of
        [(''{'timestamp': '2021-04-07T20:00:00', 'prediction': 0}'', Inr (sample_record ''2021-04-07T20:00:00'' 0)),
         (''{'timestamp': '2021-04-07T20:00:00', 'prediction': 1}'', Inr (sample_record ''2021-04-07T20:00:00'' 1)),
         (''{'timestamp': '2021-04-07T20:05:00', 'prediction': 0}'', Inr (sample_record ''2021-04-07T20:05:00'' 0)),
         (''{'timestamp': '2021-04-07T20:05:00+00:00', 'prediction': 0}'',
            Inr (sample_record ''2021-04-07T20:05:00+00:00'' 0)),
         (''dict(timestamp='2021-04-07T20:00:00', prediction=0)'', Inr (sample_record ''2021-04-07T20:00:00'' 0)),
         (''1 + 1'', Inr (PyInt 2)),
         (''1/0'', Inl (EvalError ''ZeroDivisionError''))] line of
        None \<Rightarrow> (Inl (EvalError ''SyntaxError''), k)
      | Some r \<Rightarrow> (r, k))"

definition sample_stamp :: "pyval option \<Rightarrow> stamp option" where
  "sample_stamp c =
     (case c of
        None \<Rightarrow> Some NaT
      | Some (PyStr s) \<Rightarrow>
          map_of [(''2021-04-07T20:00:00'', Naive 1617825600),
                  (''2021-04-07T20:05:00'', Naive 1617825900),
                  (''2021-04-07T20:05:00+00:00'', Aware 1617825900)] s
      | _ \<Rightarrow> None)"

definition sample_to_datetime :: "pyval option list \<Rightarrow> py_error + stamp list" where
  "sample_to_datetime cells =
     (if list_all (\<lambda>c. sample_stamp c \<noteq> None) cells
      then Inr (map (\<lambda>c. the (sample_stamp c)) cells)
      else Inl ValueError)"

definition sample_summary :: "int \<Rightarrow> string \<Rightarrow> execution_summary" where
  "sample_summary t folder =
     \<lparr>ScheduledStartTime = t, DataStartTime = t - 300, DataEndTime = t,
      Status = ''SUCCESS'',
      CustomerResultObject = Some (''bucket'', ''output/'' @ folder @ ''/results.jsonl'')\<rparr>"

definition sample_tools :: "(string \<times> string list) list \<Rightarrow> tools" where
  "sample_tools objects =
     \<lparr>py_eval = sample_eval,
      s3_fetch = map_of (map (\<lambda>(folder, lines). (''s3://bucket/output/'' @ folder @ ''/results.jsonl'', lines))
                   objects),
      shell_other = (\<lambda>line fs. fs),
      pd_to_datetime = sample_to_datetime,
      frame_other = (\<lambda>vs. Inl (KeyError ''timestamp'')),
      tie_rank = (\<lambda>stamps n. n)\<rparr>"

definition sample_kernel :: "execution_summary list \<Rightarrow> kernel" where
  "sample_kernel es =
     \<lparr>execution_summaries = es, inference_data = ''data'', results_json = [], content = [],
      comprehension = [], files = [], shell = [], dots = 0\<rparr>"


section \<open>Components specified but not part of the two notebooks\<close>

subsection \<open>Time and filename resolver\<close>

text \<open>
  Modelled from the spec: the resolver that derives, from a fire time and the scheduler
  parameters, the input file a run expects. Neither notebook holds code for it; the
  scheduling notebook passes the parameters as strings and an integer
  (\<^verbatim>\<open>'PT5M'\<close>, \<^verbatim>\<open>2\<close>, \<^verbatim>\<open>'+00:00'\<close>, \<^verbatim>\<open>'_'\<close>, \<^verbatim>\<open>'yyyyMMddHHmmss'\<close>) and describes
  the matching in prose. Following the spec: the filename timestamp is the fire time
  minus the upload frequency; the delay offset only moves the moment the scheduler
  looks; the timestamp is rendered in local time by the timezone offset, formatted by
  the timestamp format and joined to the component name by the delimiter, with the
  suffix \<^verbatim>\<open>.csv\<close>; a value outside the allowed ones is an \<open>InvalidConfiguration\<close>.
  Instants are seconds since 1970-01-01T00:00:00Z.
\<close>

datatype config_error = InvalidConfiguration

datatype timestamp_format = EPOCH | Dashed | Compact

record scheduler_params =
  upload_frequency :: string
  delay_offset :: int
  timezone_offset :: string
  component_delimiter :: string
  timestamp_format :: string

record schedule_config =
  frequency_minutes :: int
  delay_minutes :: int
  offset_minutes :: int
  delimiter :: string
  format :: timestamp_format

definition parse_frequency :: "string \<Rightarrow> config_error + int" where
  "parse_frequency s =
     (if s = ''PT5M'' then Inr 5
      else if s = ''PT10M'' then Inr 10
      else if s = ''PT15M'' then Inr 15
      else if s = ''PT30M'' then Inr 30
      else if s = ''PT1H'' then Inr 60
      else Inl InvalidConfiguration)"

definition digit_value :: "char \<Rightarrow> int option" where
  "digit_value c = map_of (zip ''0123456789'' [0, 1, 2, 3, 4, 5, 6, 7, 8, 9]) c"

text \<open>
  A timezone offset is a sign, two digits of hours, a colon and two digits of minutes,
  from \<^verbatim>\<open>-12:00\<close> to \<^verbatim>\<open>+12:00\<close> in steps of 30 minutes.
\<close>

definition parse_timezone :: "string \<Rightarrow> config_error + int" where
  "parse_timezone s =
     (case s of
        [sg, h1, h2, col, m1, m2] \<Rightarrow>
          (case (digit_value h1, digit_value h2, digit_value m1, digit_value m2) of
             (Some a, Some b, Some c, Some d) \<Rightarrow>
               (let hours = 10 * a + b; minutes = 10 * c + d
                in if (sg = CHR ''+'' \<or> sg = CHR ''-'') \<and> col = CHR '':''
                      \<and> (minutes = 0 \<or> minutes = 30)
                      \<and> (hours < 12 \<or> hours = 12 \<and> minutes = 0)
                   then Inr ((if sg = CHR ''-'' then - 1 else 1) * (60 * hours + minutes))
                   else Inl InvalidConfiguration)
           | _ \<Rightarrow> Inl InvalidConfiguration)
      | _ \<Rightarrow> Inl InvalidConfiguration)"

definition parse_delimiter :: "string \<Rightarrow> config_error + string" where
  "parse_delimiter s =
     (if s = ''-'' \<or> s = ''_'' \<or> s = '' '' then Inr s else Inl InvalidConfiguration)"

definition parse_format :: "string \<Rightarrow> config_error + timestamp_format" where
  "parse_format s =
     (if s = ''EPOCH'' then Inr EPOCH
      else if s = ''yyyy-MM-dd-HH-mm-ss'' then Inr Dashed
      else if s = ''yyyyMMddHHmmss'' then Inr Compact
      else Inl InvalidConfiguration)"

definition validate :: "scheduler_params \<Rightarrow> config_error + schedule_config" where
  "validate p =
     (case parse_frequency (upload_frequency p) of
        Inl e \<Rightarrow> Inl e
      | Inr f \<Rightarrow>
     (case parse_timezone (timezone_offset p) of
        Inl e \<Rightarrow> Inl e
      | Inr z \<Rightarrow>
     (case parse_delimiter (component_delimiter p) of
        Inl e \<Rightarrow> Inl e
      | Inr d \<Rightarrow>
     (case parse_format (timestamp_format p) of
        Inl e \<Rightarrow> Inl e
      | Inr fmt \<Rightarrow>
          if delay_offset p < 0 then Inl InvalidConfiguration
          else Inr \<lparr>frequency_minutes = f, delay_minutes = delay_offset p,
                    offset_minutes = z, delimiter = d, format = fmt\<rparr>))))"

text \<open>The calendar: days since the epoch to and from year, month and day.\<close>

definition days_from_civil :: "int \<Rightarrow> int \<Rightarrow> int \<Rightarrow> int" where
  "days_from_civil y m d =
     (let y' = (if m \<le> 2 then y - 1 else y);
          era = y' div 400;
          yoe = y' - era * 400;
          mp = (m + 9) mod 12;
          doy = (153 * mp + 2) div 5 + d - 1;
          doe = yoe * 365 + yoe div 4 - yoe div 100 + doy
      in era * 146097 + doe - 719468)"

definition civil_from_days :: "int \<Rightarrow> int \<times> int \<times> int" where
  "civil_from_days z0 =
     (let z = z0 + 719468;
          era = z div 146097;
          doe = z - era * 146097;
          yoe = (doe - doe div 1460 + doe div 36524 - doe div 146096) div 365;
          doy = doe - (365 * yoe + yoe div 4 - yoe div 100);
          mp = (5 * doy + 2) div 153;
          d = doy - (153 * mp + 2) div 5 + 1;
          m = (if mp < 10 then mp + 3 else mp - 9);
          y = yoe + era * 400
      in (if m \<le> 2 then y + 1 else y, m, d))"

definition utc :: "int \<Rightarrow> int \<Rightarrow> int \<Rightarrow> int \<Rightarrow> int \<Rightarrow> int \<Rightarrow> int" where
  "utc y m d hh mm ss = days_from_civil y m d * 86400 + hh * 3600 + mm * 60 + ss"

text \<open>Decimal digits, padded with zeros to a width.\<close>

definition digit_char :: "int \<Rightarrow> char" where
  "digit_char n = ''0123456789'' ! nat n"

fun decimal :: "nat \<Rightarrow> string" where
  "decimal n = (if n < 10 then [digit_char (int n)] else decimal (n div 10) @ [digit_char (int (n mod 10))])"

declare decimal.simps [simp del]

definition padded :: "nat \<Rightarrow> int \<Rightarrow> string" where
  "padded w n =
     (let s = decimal (nat \<bar>n\<bar>)
      in (if n < 0 then ''-'' else []) @ replicate (w - length s) CHR ''0'' @ s)"

definition render :: "timestamp_format \<Rightarrow> int \<Rightarrow> int \<Rightarrow> string" where
  "render fmt offset t =
     (case fmt of
        EPOCH \<Rightarrow> padded 1 t
      | _ \<Rightarrow>
          (let local = t + 60 * offset;
               (y, m, d) = civil_from_days (local div 86400);
               sod = local mod 86400;
               fields = [padded 4 y, padded 2 m, padded 2 d,
                         padded 2 (sod div 3600), padded 2 (sod mod 3600 div 60), padded 2 (sod mod 60)]
           in if fmt = Dashed
              then fields ! 0 @ ''-'' @ fields ! 1 @ ''-'' @ fields ! 2 @ ''-''
                   @ fields ! 3 @ ''-'' @ fields ! 4 @ ''-'' @ fields ! 5
              else concat fields))"

text \<open>
  Modelled from the spec: the contract of the resolver, which no source file holds.
  The filename timestamp and the start of the data window are the fire time minus the
  upload frequency; the delay offset is added to the fire time to give the moment the
  scheduler looks and does not change the file expected.
\<close>

definition filename_timestamp :: "schedule_config \<Rightarrow> int \<Rightarrow> int" where
  "filename_timestamp cfg fire_time = fire_time - 60 * frequency_minutes cfg"

definition data_window :: "schedule_config \<Rightarrow> int \<Rightarrow> int \<times> int" where
  "data_window cfg fire_time = (fire_time - 60 * frequency_minutes cfg, fire_time)"

definition search_time :: "schedule_config \<Rightarrow> int \<Rightarrow> int" where
  "search_time cfg fire_time = fire_time + 60 * delay_minutes cfg"

definition expected_key :: "scheduler_params \<Rightarrow> string \<Rightarrow> int \<Rightarrow> config_error + string" where
  "expected_key p component fire_time =
     (case validate p of
        Inl e \<Rightarrow> Inl e
      | Inr cfg \<Rightarrow>
          Inr (component @ delimiter cfg
               @ render (format cfg) (offset_minutes cfg) (filename_timestamp cfg fire_time)
               @ ''.csv''))"

text \<open>A run takes a file exactly when the file's name is the expected key.\<close>

definition matched :: "scheduler_params \<Rightarrow> string \<Rightarrow> int \<Rightarrow> string \<Rightarrow> bool" where
  "matched p component fire_time fname = (expected_key p component fire_time = Inr fname)"

text \<open>The parameters the scheduling notebook sets.\<close>

definition notebook_params :: scheduler_params where
  "notebook_params =
     \<lparr>upload_frequency = ''PT5M'', delay_offset = 2, timezone_offset = ''+00:00'',
      component_delimiter = ''_'', timestamp_format = ''yyyyMMddHHmmss''\<rparr>"

subsection \<open>Schedule lifecycle controller\<close>

text \<open>
  Modelled from the spec: the methods \<^verbatim>\<open>create\<close>, \<^verbatim>\<open>start\<close>, \<^verbatim>\<open>stop\<close> and
  \<^verbatim>\<open>delete\<close> of the scheduler object, which the scheduling notebook calls but which
  are defined in the helper module. Following the spec: the states are UNCREATED,
  RUNNING, STOPPED and DELETED with the four transitions create, stop, start and
  delete; \<^verbatim>\<open>create\<close> fails with \<open>AlreadyExists\<close> when a schedule exists for the
  model; \<^verbatim>\<open>delete\<close> from RUNNING fails with \<open>InvalidState\<close>; every other request
  outside the four transitions is an \<open>InvalidState\<close> too, DELETED being final. There
  is at most one schedule per model, so the service is a map from model names to
  states.
\<close>

datatype schedule_state = UNCREATED | RUNNING | STOPPED | DELETED

datatype lifecycle_request = Create | Start | Stop | Delete

datatype lifecycle_error = AlreadyExists | InvalidState

text \<open>
  Modelled from the spec: the transition function of the lifecycle methods, which are
  in the helper module and not in the notebooks.
\<close>

fun transition :: "schedule_state \<Rightarrow> lifecycle_request \<Rightarrow> lifecycle_error + schedule_state" where
  "transition UNCREATED Create = Inr RUNNING"
| "transition RUNNING Create = Inl AlreadyExists"
| "transition STOPPED Create = Inl AlreadyExists"
| "transition RUNNING Stop = Inr STOPPED"
| "transition STOPPED Start = Inr RUNNING"
| "transition STOPPED Delete = Inr DELETED"
| "transition s r = Inl InvalidState"

definition lifecycle ::
  "(string \<Rightarrow> schedule_state) \<Rightarrow> string \<Rightarrow> lifecycle_request \<Rightarrow> lifecycle_error + (string \<Rightarrow> schedule_state)"
where
  "lifecycle schedules model r =
     (case transition (schedules model) r of
        Inl e \<Rightarrow> Inl e
      | Inr s \<Rightarrow> Inr (schedules(model := s)))"

fun lifecycle_run ::
  "(string \<Rightarrow> schedule_state) \<Rightarrow> string \<Rightarrow> lifecycle_request list \<Rightarrow> lifecycle_error + (string \<Rightarrow> schedule_state)"
where
  "lifecycle_run schedules model [] = Inr schedules"
| "lifecycle_run schedules model (r # rs) =
     (case lifecycle schedules model r of
        Inl e \<Rightarrow> Inl e
      | Inr schedules' \<Rightarrow> lifecycle_run schedules' model rs)"

subsection \<open>Execution poller\<close>

text \<open>
  Modelled from the spec: the method \<^verbatim>\<open>list_inference_executions\<close> of the scheduler
  object, defined in the helper module; the notebook calls it with a start time, an end
  time and a status, each optional. Following the spec: it returns the executions of
  the schedule that pass the filters, ordered by fire time ascending, and maintains a
  locally accumulated view keyed by fire time, so that a summary seen again replaces
  the one held for that fire time instead of being added a second time. The service
  holds the executions of all schedules, each with the name of its schedule.
\<close>

record poller =
  scheduler_name :: string
  accumulated :: "(int \<times> execution_summary) list"

definition passes :: "list_filters \<Rightarrow> execution_summary \<Rightarrow> bool" where
  "passes f e =
     ((case start_time f of None \<Rightarrow> True | Some a \<Rightarrow> a < DataStartTime e)
      \<and> (case end_time f of None \<Rightarrow> True | Some b \<Rightarrow> DataEndTime e < b)
      \<and> (case execution_status f of None \<Rightarrow> True | Some s \<Rightarrow> Status e = s))"

fun upsert :: "int \<Rightarrow> 'a \<Rightarrow> (int \<times> 'a) list \<Rightarrow> (int \<times> 'a) list" where
  "upsert k v [] = [(k, v)]"
| "upsert k v (x # xs) =
     (if k < fst x then (k, v) # x # xs
      else if k = fst x then (k, v) # xs
      else x # upsert k v xs)"

definition accumulate ::
  "execution_summary list \<Rightarrow> (int \<times> execution_summary) list \<Rightarrow> (int \<times> execution_summary) list"
where
  "accumulate es view = fold (\<lambda>e. upsert (ScheduledStartTime e) e) es view"

text \<open>
  Modelled from the spec: the list method of the helper module, with the service's
  executions and the poller's state passed explicitly.
\<close>

definition list_inference_executions ::
  "(string \<times> execution_summary) list \<Rightarrow> list_filters \<Rightarrow> poller \<Rightarrow> execution_summary list \<times> poller"
where
  "list_inference_executions remote f p =
     (let fetched = filter (passes f) (map snd (filter (\<lambda>x. fst x = scheduler_name p) remote))
      in (map snd (accumulate fetched []),
          p\<lparr>accumulated := accumulate fetched (accumulated p)\<rparr>))"


section \<open>Properties of the polling loops\<close>

lemma ingestion_wait_run:
  "(\<forall>j<k. status_at d jid st0 (clock s) j = ''IN_PROGRESS'') \<Longrightarrow>
   status_at d jid st0 (clock s) k \<noteq> ''IN_PROGRESS'' \<Longrightarrow>
   ingestion_wait d jid st0 s =
     Some (status_at d jid st0 (clock s) k,
           s\<lparr>clock := clock s + 60 * k,
             stdout := stdout s @ map (\<lambda>j. StatusLine (clock s + 60 * j) (status_at d jid st0 (clock s) j)) [1..<Suc k],
             requests := requests s @ replicate k (DescribeDataIngestionJob jid)\<rparr>)"
proof (induction k arbitrary: st0 s)
  case 0
  then show ?case by (subst ingestion_wait.simps) (simp add: status_at_def)
next
  case (Suc k)
  from Suc.prems(1) have ip: "st0 = ''IN_PROGRESS''"
    by (auto simp: status_at_def dest: spec[of _ 0])
  define st1 where "st1 = d jid (clock s + 60)"
  define s3 where "s3 = print_line (StatusLine (clock s + 60) st1)
                          (request (DescribeDataIngestionJob jid) (sleep 60 s))"
  have c3: "clock s3 = clock s + 60"
    by (simp add: s3_def print_line_def request_def sleep_def)
  have shift: "status_at d jid st1 (clock s3) j = status_at d jid st0 (clock s) (Suc j)" for j
    by (simp add: status_at_def c3 st1_def add.assoc)
  have step: "ingestion_wait d jid st0 s = ingestion_wait d jid st1 s3"
    by (subst ingestion_wait.simps)
       (simp add: ip Let_def s3_def st1_def print_line_def request_def sleep_def)
  have "ingestion_wait d jid st1 s3 =
     Some (status_at d jid st1 (clock s3) k,
           s3\<lparr>clock := clock s3 + 60 * k,
             stdout := stdout s3 @ map (\<lambda>j. StatusLine (clock s3 + 60 * j) (status_at d jid st1 (clock s3) j)) [1..<Suc k],
             requests := requests s3 @ replicate k (DescribeDataIngestionJob jid)\<rparr>)"
    using Suc.prems by (intro Suc.IH) (auto simp: shift)
  also have "status_at d jid st1 (clock s3) k = status_at d jid st0 (clock s) (Suc k)"
    by (rule shift)
  finally have run: "ingestion_wait d jid st1 s3 =
     Some (status_at d jid st0 (clock s) (Suc k),
           s3\<lparr>clock := clock s3 + 60 * k,
             stdout := stdout s3 @ map (\<lambda>j. StatusLine (clock s3 + 60 * j) (status_at d jid st1 (clock s3) j)) [1..<Suc k],
             requests := requests s3 @ replicate k (DescribeDataIngestionJob jid)\<rparr>)" .
  have lines: "stdout s3 @ map (\<lambda>j. StatusLine (clock s3 + 60 * j) (status_at d jid st1 (clock s3) j)) [1..<Suc k]
      = stdout s @ map (\<lambda>j. StatusLine (clock s + 60 * j) (status_at d jid st0 (clock s) j)) [1..<Suc (Suc k)]"
  proof -
    have "[1..<Suc (Suc k)] = 1 # map Suc [1..<Suc k]"
      by (simp add: map_Suc_upt upt_conv_Cons del: upt_Suc)
    moreover have "stdout s3 = stdout s @ [StatusLine (clock s + 60) (status_at d jid st0 (clock s) 1)]"
      by (simp add: s3_def print_line_def request_def sleep_def status_at_def st1_def)
    ultimately show ?thesis
      by (simp add: shift[unfolded c3] c3 comp_def add.assoc del: upt_Suc)
  qed
  have reqs: "requests s3 @ replicate k (DescribeDataIngestionJob jid)
      = requests s @ replicate (Suc k) (DescribeDataIngestionJob jid)"
    by (simp add: s3_def print_line_def request_def sleep_def replicate_append_same)
  show ?case
    unfolding step run lines reqs
    by (simp add: c3 s3_def print_line_def request_def sleep_def)
qed

lemma ingestion_wait_returns:
  "ingestion_wait d jid st0 s = Some r \<Longrightarrow>
   \<exists>k. status_at d jid st0 (clock s) k \<noteq> ''IN_PROGRESS''"
proof (rule ingestion_wait.raw_induct
    [where P = "\<lambda>d jid st0 s r. \<exists>k. status_at d jid st0 (clock s) k \<noteq> ''IN_PROGRESS''"])
  fix w :: "(string \<Rightarrow> nat \<Rightarrow> string) \<Rightarrow> string \<Rightarrow> string \<Rightarrow> session \<Rightarrow> (string \<times> session) option"
  fix d jid st0 s r
  assume 1: "\<And>d jid st0 s r. w d jid st0 s = Some r \<Longrightarrow>
               \<exists>k. status_at d jid st0 (clock s) k \<noteq> ''IN_PROGRESS''"
    "(if st0 = ''IN_PROGRESS''
      then let s1 = sleep 60 s;
               s2 = request (DescribeDataIngestionJob jid) s1;
               status' = d jid (clock s2)
           in Let (print_line (StatusLine (clock s2) status') s2)
               (w d jid status')
      else Some (st0, s)) = Some r"
  show "\<exists>k. status_at d jid st0 (clock s) k \<noteq> ''IN_PROGRESS''"
  proof (cases "st0 = ''IN_PROGRESS''")
    case False
    then have "status_at d jid st0 (clock s) 0 \<noteq> ''IN_PROGRESS''"
      by (simp add: status_at_def)
    then show ?thesis by blast
  next
    case True
    define st1 where "st1 = d jid (clock s + 60)"
    define s3 where "s3 = print_line (StatusLine (clock s + 60) st1)
                            (request (DescribeDataIngestionJob jid) (sleep 60 s))"
    have c3: "clock s3 = clock s + 60"
      by (simp add: s3_def print_line_def request_def sleep_def)
    from 1(2) True have "w d jid st1 s3 = Some r"
      by (simp add: Let_def s3_def st1_def print_line_def request_def sleep_def)
    from 1(1)[OF this] obtain k where "status_at d jid st1 (clock s3) k \<noteq> ''IN_PROGRESS''"
      by blast
    then have "status_at d jid st0 (clock s) (Suc k) \<noteq> ''IN_PROGRESS''"
      by (auto simp: status_at_def c3 st1_def add.assoc split: if_splits)
    then show ?thesis by blast
  qed
qed

text \<open>
  Claim C9. The ingestion loop checks the job once at the start and then once every 60
  seconds for as long as the status read is \<^verbatim>\<open>IN_PROGRESS\<close>. If check number \<open>k\<close> is
  the first to read another status (\<^verbatim>\<open>SUCCESS\<close>, \<^verbatim>\<open>FAILED\<close> or anything else), the
  loop returns that status after exactly \<open>k\<close> sleeps of 60 seconds, having printed one
  line with the time and the status for each of the checks \<open>0..k\<close>, and having sent
  \<open>k\<close> describe requests and nothing else: no job is started again. If every check
  reads \<^verbatim>\<open>IN_PROGRESS\<close> the loop never returns.
\<close>

theorem ingestion_polling:
  "((\<forall>j<k. status_at d jid st0 (clock s) j = ''IN_PROGRESS'') \<and>
    status_at d jid st0 (clock s) k \<noteq> ''IN_PROGRESS'' \<longrightarrow>
      poll_data_ingestion d jid st0 s =
        Some (status_at d jid st0 (clock s) k,
              s\<lparr>clock := clock s + 60 * k,
                stdout := stdout s
                  @ [Banner ''=====Polling Data Ingestion Status=====''] 
                  @ map (\<lambda>j. StatusLine (clock s + 60 * j) (status_at d jid st0 (clock s) j)) [0..<Suc k]
                  @ [Banner ''=====End of Polling Data Ingestion Status=====''],
                requests := requests s @ replicate k (DescribeDataIngestionJob jid)\<rparr>))
   \<and> ((\<forall>j. status_at d jid st0 (clock s) j = ''IN_PROGRESS'') \<longrightarrow>
          poll_data_ingestion d jid st0 s = None)"
proof (intro conjI impI)
  define s2 where "s2 = print_line (StatusLine (clock s) st0)
                          (print_line (Banner ''=====Polling Data Ingestion Status====='') s)"
  have c2: "clock s2 = clock s"
    by (simp add: s2_def print_line_def)
  have poll: "poll_data_ingestion d jid st0 s =
      (case ingestion_wait d jid st0 s2 of None \<Rightarrow> None
       | Some (status, s3) \<Rightarrow>
           Some (status, print_line (Banner ''=====End of Polling Data Ingestion Status====='') s3))"
    by (simp add: poll_data_ingestion_def Let_def s2_def print_line_def)
  {
    assume "(\<forall>j<k. status_at d jid st0 (clock s) j = ''IN_PROGRESS'') \<and>
            status_at d jid st0 (clock s) k \<noteq> ''IN_PROGRESS''"
    then have run: "ingestion_wait d jid st0 s2 =
      Some (status_at d jid st0 (clock s2) k,
            s2\<lparr>clock := clock s2 + 60 * k,
              stdout := stdout s2 @ map (\<lambda>j. StatusLine (clock s2 + 60 * j) (status_at d jid st0 (clock s2) j)) [1..<Suc k],
              requests := requests s2 @ replicate k (DescribeDataIngestionJob jid)\<rparr>)"
      by (intro ingestion_wait_run) (simp_all add: c2)
    have first: "[0..<Suc k] = 0 # [1..<Suc k]"
      by (simp add: upt_conv_Cons del: upt_Suc)
    have zero: "status_at d jid st0 (clock s) 0 = st0"
      by (simp add: status_at_def)
    show "poll_data_ingestion d jid st0 s =
        Some (status_at d jid st0 (clock s) k,
              s\<lparr>clock := clock s + 60 * k,
                stdout := stdout s
                  @ [Banner ''=====Polling Data Ingestion Status=====''] 
                  @ map (\<lambda>j. StatusLine (clock s + 60 * j) (status_at d jid st0 (clock s) j)) [0..<Suc k]
                  @ [Banner ''=====End of Polling Data Ingestion Status=====''],
                requests := requests s @ replicate k (DescribeDataIngestionJob jid)\<rparr>)"
      unfolding poll run first
      by (simp add: c2 zero s2_def print_line_def del: upt_Suc)
  }
  {
    assume all: "\<forall>j. status_at d jid st0 (clock s) j = ''IN_PROGRESS''"
    have "ingestion_wait d jid st0 s2 = None"
    proof (cases "ingestion_wait d jid st0 s2")
      case (Some r)
      from ingestion_wait_returns[OF this] all show ?thesis
        by (simp add: c2)
    qed simp
    then show "poll_data_ingestion d jid st0 s = None"
      by (simp add: poll)
  }
qed

theorem ingestion_polling_witness:
  "poll_data_ingestion (\<lambda>_ t. if t < 120 then ''IN_PROGRESS'' else ''FAILED'') ''job-1''
      ''IN_PROGRESS'' \<lparr>clock = 0, stdout = [], requests = []\<rparr> =
     Some (''FAILED'',
           \<lparr>clock = 120,
            stdout = [Banner ''=====Polling Data Ingestion Status====='',
                      StatusLine 0 ''IN_PROGRESS'', StatusLine 60 ''IN_PROGRESS'',
                      StatusLine 120 ''FAILED'',
                      Banner ''=====End of Polling Data Ingestion Status=====''],
            requests = [DescribeDataIngestionJob ''job-1'', DescribeDataIngestionJob ''job-1'']\<rparr>)
   \<and> poll_data_ingestion (\<lambda>_ _. ''IN_PROGRESS'') ''job-1''
      ''IN_PROGRESS'' \<lparr>clock = 0, stdout = [], requests = []\<rparr> = None"
proof
  let ?d = "\<lambda>(_::string) (t::nat). if t < 120 then ''IN_PROGRESS'' else ''FAILED''"
  let ?s = "\<lparr>clock = 0, stdout = [], requests = []\<rparr>"
  have h: "(\<forall>j<2. status_at ?d ''job-1'' ''IN_PROGRESS'' (clock ?s) j = ''IN_PROGRESS'') \<and>
           status_at ?d ''job-1'' ''IN_PROGRESS'' (clock ?s) 2 \<noteq> ''IN_PROGRESS''"
    by (auto simp: status_at_def)
  have two: "[0..<Suc 2] = [0, 1, 2]"
    by (simp add: upt_conv_Cons)
  from conjunct1[OF ingestion_polling[of 2 ?d "''job-1''" "''IN_PROGRESS''" ?s], rule_format, OF h]
  show "poll_data_ingestion ?d ''job-1'' ''IN_PROGRESS'' ?s =
     Some (''FAILED'',
           \<lparr>clock = 120,
            stdout = [Banner ''=====Polling Data Ingestion Status====='',
                      StatusLine 0 ''IN_PROGRESS'', StatusLine 60 ''IN_PROGRESS'',
                      StatusLine 120 ''FAILED'',
                      Banner ''=====End of Polling Data Ingestion Status=====''],
            requests = [DescribeDataIngestionJob ''job-1'', DescribeDataIngestionJob ''job-1'']\<rparr>)"
    unfolding two by (simp add: status_at_def numeral_2_eq_2)
next
  let ?s = "\<lparr>clock = 0, stdout = [], requests = []\<rparr>"
  from conjunct2[OF ingestion_polling[of 0 "\<lambda>_ _. ''IN_PROGRESS''" "''job-1''" "''IN_PROGRESS''" ?s]]
  show "poll_data_ingestion (\<lambda>_ _. ''IN_PROGRESS'') ''job-1'' ''IN_PROGRESS'' ?s = None"
    by (simp add: status_at_def)
qed

lemma await_first_run:
  "(\<forall>j<k. list_exec f (clock s + 60 * j) = []) \<Longrightarrow>
   list_exec f (clock s + 60 * k) \<noteq> [] \<Longrightarrow>
   await_first_execution list_exec f s =
     Some (list_exec f (clock s + 60 * k),
           s\<lparr>clock := clock s + 60 * k,
             stdout := stdout s
               @ replicate k (Banner ''WAITING FOR THE FIRST INFERENCE EXECUTION'')
               @ [Banner ''FIRST INFERENCE EXECUTED''],
             requests := requests s @ replicate (Suc k) (list_request f)\<rparr>)"
proof (induction k arbitrary: s)
  case 0
  then show ?case
    by (subst await_first_execution.simps)
       (simp add: Let_def request_def print_line_def)
next
  case (Suc k)
  define s2 where "s2 = sleep 60 (print_line (Banner ''WAITING FOR THE FIRST INFERENCE EXECUTION'')
                           (request (list_request f) s))"
  have c2: "clock s2 = clock s + 60"
    by (simp add: s2_def print_line_def request_def sleep_def)
  from Suc.prems(1) have empty0: "list_exec f (clock s) = []"
    by (auto dest: spec[of _ 0])
  have step: "await_first_execution list_exec f s = await_first_execution list_exec f s2"
    by (subst await_first_execution.simps)
       (simp add: Let_def empty0 s2_def request_def)
  have shift: "clock s2 + 60 * j = clock s + 60 * Suc j" for j
    by (simp add: c2)
  have "await_first_execution list_exec f s2 =
     Some (list_exec f (clock s2 + 60 * k),
           s2\<lparr>clock := clock s2 + 60 * k,
             stdout := stdout s2
               @ replicate k (Banner ''WAITING FOR THE FIRST INFERENCE EXECUTION'')
               @ [Banner ''FIRST INFERENCE EXECUTED''],
             requests := requests s2 @ replicate (Suc k) (list_request f)\<rparr>)"
  proof (rule Suc.IH)
    show "\<forall>j<k. list_exec f (clock s2 + 60 * j) = []"
      using Suc.prems(1) unfolding shift by auto
    show "list_exec f (clock s2 + 60 * k) \<noteq> []"
      using Suc.prems(2) unfolding shift .
  qed
  then show ?case
    unfolding step shift
    by (simp add: s2_def print_line_def request_def sleep_def replicate_append_same)
qed

lemma await_first_returns:
  "await_first_execution list_exec f s = Some r \<Longrightarrow>
   fst r \<noteq> [] \<and> (\<exists>k. list_exec f (clock s + 60 * k) \<noteq> [])"
proof (rule await_first_execution.raw_induct
    [where P = "\<lambda>list_exec f s r. fst r \<noteq> [] \<and> (\<exists>k. list_exec f (clock s + 60 * k) \<noteq> [])"])
  fix w :: "(list_filters \<Rightarrow> nat \<Rightarrow> 'a list) \<Rightarrow> list_filters \<Rightarrow> session \<Rightarrow> ('a list \<times> session) option"
  fix list_exec f s r
  assume IH: "\<And>list_exec f s r. w list_exec f s = Some r \<Longrightarrow>
               fst r \<noteq> [] \<and> (\<exists>k. list_exec f (clock s + 60 * k) \<noteq> [])"
  assume body: "(let s1 = request (list_request f) s;
          execution_summaries = list_exec f (clock s1)
      in if length execution_summaries = 0 then
           w list_exec f
             (sleep 60 (print_line (Banner ''WAITING FOR THE FIRST INFERENCE EXECUTION'') s1))
         else
           Some (execution_summaries, print_line (Banner ''FIRST INFERENCE EXECUTED'') s1)) = Some r"
  show "fst r \<noteq> [] \<and> (\<exists>k. list_exec f (clock s + 60 * k) \<noteq> [])"
  proof (cases "list_exec f (clock s) = []")
    case False
    with body have "fst r = list_exec f (clock s)"
      by (auto simp: Let_def request_def)
    moreover from False have "list_exec f (clock s + 60 * 0) \<noteq> []" by simp
    ultimately show ?thesis using False by metis
  next
    case True
    define s2 where "s2 = sleep 60 (print_line (Banner ''WAITING FOR THE FIRST INFERENCE EXECUTION'')
                           (request (list_request f) s))"
    have c2: "clock s2 = clock s + 60"
      by (simp add: s2_def print_line_def request_def sleep_def)
    from body True have "w list_exec f s2 = Some r"
      by (simp add: Let_def request_def s2_def)
    from IH[OF this] obtain k where r: "fst r \<noteq> []" and "list_exec f (clock s2 + 60 * k) \<noteq> []"
      by blast
    then have "list_exec f (clock s + 60 * Suc k) \<noteq> []"
      by (simp add: c2 add.assoc)
    with r show ?thesis by blast
  qed
qed

text \<open>
  Claim C5. The wait for the first execution calls the list method with the same
  filters every time and sleeps 60 seconds after each empty answer. It returns if and
  only if some poll (at the start time plus a multiple of 60 seconds) gives a non-empty
  answer; what it returns is never empty; and when poll number \<open>k\<close> is the first
  non-empty one, it returns that answer after \<open>k\<close> sleeps and \<open>k + 1\<close> identical
  list requests.
\<close>

theorem await_first_execution_terminates_iff:
  "((\<exists>r. await_first_execution list_exec f s = Some r) \<longleftrightarrow>
      (\<exists>k. list_exec f (clock s + 60 * k) \<noteq> []))
   \<and> (\<forall>es s'. await_first_execution list_exec f s = Some (es, s') \<longrightarrow> es \<noteq> [])
   \<and> ((\<forall>j<k. list_exec f (clock s + 60 * j) = []) \<and> list_exec f (clock s + 60 * k) \<noteq> [] \<longrightarrow>
        await_first_execution list_exec f s =
          Some (list_exec f (clock s + 60 * k),
                s\<lparr>clock := clock s + 60 * k,
                  stdout := stdout s
                    @ replicate k (Banner ''WAITING FOR THE FIRST INFERENCE EXECUTION'')
                    @ [Banner ''FIRST INFERENCE EXECUTED''],
                  requests := requests s @ replicate (Suc k) (list_request f)\<rparr>))"
proof (intro conjI allI impI iffI)
  assume "\<exists>r. await_first_execution list_exec f s = Some r"
  then show "\<exists>k. list_exec f (clock s + 60 * k) \<noteq> []"
    using await_first_returns by blast
next
  assume "\<exists>k. list_exec f (clock s + 60 * k) \<noteq> []"
  then obtain k where k: "list_exec f (clock s + 60 * k) \<noteq> []" ..
  define m where "m = (LEAST k. list_exec f (clock s + 60 * k) \<noteq> [])"
  have "list_exec f (clock s + 60 * m) \<noteq> []"
    unfolding m_def using k by (rule LeastI)
  moreover have "\<forall>j<m. list_exec f (clock s + 60 * j) = []"
    unfolding m_def using not_less_Least by blast
  ultimately show "\<exists>r. await_first_execution list_exec f s = Some r"
    using await_first_run[of m list_exec f s] by simp
next
  fix es s'
  assume "await_first_execution list_exec f s = Some (es, s')"
  from await_first_returns[OF this] show "es \<noteq> []" by simp
next
  assume "(\<forall>j<k. list_exec f (clock s + 60 * j) = []) \<and> list_exec f (clock s + 60 * k) \<noteq> []"
  then show "await_first_execution list_exec f s =
          Some (list_exec f (clock s + 60 * k),
                s\<lparr>clock := clock s + 60 * k,
                  stdout := stdout s
                    @ replicate k (Banner ''WAITING FOR THE FIRST INFERENCE EXECUTION'')
                    @ [Banner ''FIRST INFERENCE EXECUTED''],
                  requests := requests s @ replicate (Suc k) (list_request f)\<rparr>)"
    using await_first_run[of k list_exec f s] by simp
qed

theorem await_first_execution_terminates_iff_witness:
  "await_first_execution (\<lambda>_ t. if t < 120 then [] else [''2021-01-27T09:15:00''])
      \<lparr>start_time = None, end_time = None, execution_status = None\<rparr>
      \<lparr>clock = 0, stdout = [], requests = []\<rparr> =
     Some ([''2021-01-27T09:15:00''],
           \<lparr>clock = 120,
            stdout = [Banner ''WAITING FOR THE FIRST INFERENCE EXECUTION'',
                      Banner ''WAITING FOR THE FIRST INFERENCE EXECUTION'',
                      Banner ''FIRST INFERENCE EXECUTED''],
            requests = [ListInferenceExecutions None None None,
                        ListInferenceExecutions None None None,
                        ListInferenceExecutions None None None]\<rparr>)
   \<and> await_first_execution (\<lambda>_ _. ([] :: string list))
      \<lparr>start_time = None, end_time = None, execution_status = None\<rparr>
      \<lparr>clock = 0, stdout = [], requests = []\<rparr> = None"
proof
  let ?l = "\<lambda>(_::list_filters) (t::nat). if t < 120 then [] else [''2021-01-27T09:15:00'']"
  let ?f = "\<lparr>start_time = None, end_time = None, execution_status = None\<rparr>"
  let ?s = "\<lparr>clock = 0, stdout = [], requests = []\<rparr>"
  have h: "(\<forall>j<2. ?l ?f (clock ?s + 60 * j) = []) \<and> ?l ?f (clock ?s + 60 * 2) \<noteq> []"
    by auto
  from await_first_execution_terminates_iff[of ?l ?f ?s 2, THEN conjunct2, THEN conjunct2,
      rule_format, OF h]
  show "await_first_execution ?l ?f ?s =
     Some ([''2021-01-27T09:15:00''],
           \<lparr>clock = 120,
            stdout = [Banner ''WAITING FOR THE FIRST INFERENCE EXECUTION'',
                      Banner ''WAITING FOR THE FIRST INFERENCE EXECUTION'',
                      Banner ''FIRST INFERENCE EXECUTED''],
            requests = [ListInferenceExecutions None None None,
                        ListInferenceExecutions None None None,
                        ListInferenceExecutions None None None]\<rparr>)"
    by (simp add: list_request_def numeral_2_eq_2 numeral_3_eq_3)
next
  let ?l = "\<lambda>(_::list_filters) (_::nat). ([] :: string list)"
  let ?f = "\<lparr>start_time = None, end_time = None, execution_status = None\<rparr>"
  let ?s = "\<lparr>clock = 0, stdout = [], requests = []\<rparr>"
  from await_first_execution_terminates_iff[of ?l ?f ?s 0, THEN conjunct1]
  show "await_first_execution ?l ?f ?s = None"
    by (cases "await_first_execution ?l ?f ?s") auto
qed

section \<open>Properties of the aggregation\<close>

lemma eval_lines_pure:
  "pure_values ev lines vs \<Longrightarrow> eval_lines ev lines k = Inr (k\<lparr>comprehension := comprehension k @ vs\<rparr>)"
  unfolding pure_values_def
  by (induction lines vs arbitrary: k rule: list_all2_induct) simp_all

lemma eval_lines_raises:
  assumes "pure_values ev good vs" and "\<forall>k. ev bad k = (Inl err, k)"
  shows "eval_lines ev (good @ bad # rest) k = Inl (err, k\<lparr>comprehension := comprehension k @ vs\<rparr>)"
  using assms unfolding pure_values_def
  by (induction good vs arbitrary: k rule: list_all2_induct) simp_all

lemma readlines_after_cp:
  "plain_word url \<Longrightarrow> plain_word fname \<Longrightarrow> s3_fetch T url = Some lines \<Longrightarrow>
   readlines (aws_s3_cp T url fname k) fname = Inr lines"
  by (simp add: readlines_def aws_s3_cp_def)

lemma collect_execution_through:
  assumes "goes_through T (inference_data k) e c"
  shows "\<exists>k'. collect_execution T k e = Inr k' \<and> advanced k k' c 1 (successes [e])"
proof (cases "Status e = ''SUCCESS''")
  case False
  with assms show ?thesis
    by (simp add: collect_execution_def goes_through_def advanced_def successes_def)
next
  case True
  with assms obtain lines where d: "delivered T (inference_data k) e = Some lines"
    and pv: "pure_values (py_eval T) lines c"
    by (auto simp: goes_through_def split: option.splits)
  from d obtain bucket key ts where
    cro: "CustomerResultObject e = Some (bucket, key)" and
    pen: "penultimate (split_on CHR ''/'' key) = Inr ts" and
    w1: "plain_word (s3_fname bucket key)" and
    w2: "plain_word (local_fname (inference_data k) ts)" and
    obj: "s3_fetch T (s3_fname bucket key) = Some lines"
    by (auto simp: delivered_def split: option.splits sum.splits prod.splits if_splits)
  define k1 where "k1 = k\<lparr>dots := dots k + 1\<rparr>"
  define k2 where "k2 = aws_s3_cp T (s3_fname bucket key) (local_fname (inference_data k) ts) k1"
  have rd: "readlines k2 (local_fname (inference_data k) ts) = Inr lines"
    unfolding k2_def using w1 w2 obj by (rule readlines_after_cp)
  have ev: "eval_lines (py_eval T) lines (k2\<lparr>comprehension := []\<rparr>) = Inr (k2\<lparr>comprehension := c\<rparr>)"
    using eval_lines_pure[OF pv, of "k2\<lparr>comprehension := []\<rparr>"] by simp
  have "collect_execution T k e
          = Inr (k2\<lparr>content := c, results_json := results_json k2 @ c, comprehension := []\<rparr>)"
    using True cro pen rd ev unfolding k2_def k1_def
    by (simp add: collect_execution_def Let_def)
  moreover have "advanced k (k2\<lparr>content := c, results_json := results_json k2 @ c, comprehension := []\<rparr>)
                   c 1 (successes [e])"
    using True by (simp add: k2_def k1_def aws_s3_cp_def advanced_def successes_def)
  ultimately show ?thesis by blast
qed

lemma advanced_trans:
  "advanced k k1 rs n m \<Longrightarrow> advanced k1 k2 rs' n' m' \<Longrightarrow> advanced k k2 (rs @ rs') (n + n') (m + m')"
  by (simp add: advanced_def)

lemma advanced_refl: "advanced k k [] 0 0"
  by (simp add: advanced_def)

lemma successes_append: "successes (xs @ ys) = successes xs + successes ys"
  by (simp add: successes_def)

lemma collect_from_prefix:
  assumes "list_all2 (goes_through T idir) pre cs"
    and "inference_data k = idir"
    and "drop i (execution_summaries k) = pre @ rest"
  shows "\<exists>k'. collect_from T i k = collect_from T (i + length pre) k'
           \<and> advanced k k' (concat cs) (length pre) (successes pre)"
  using assms
proof (induction pre cs arbitrary: i k rule: list_all2_induct)
  case Nil
  show ?case by (rule exI[of _ k]) (simp add: advanced_def successes_def)
next
  case (Cons e pre c cs)
  from Cons.prems have dr: "drop i (execution_summaries k) = e # (pre @ rest)" by simp
  then have i: "i < length (execution_summaries k)"
    by (metis drop_all list.distinct(1) not_le)
  with dr have ei: "execution_summaries k ! i = e"
    and dr': "drop (Suc i) (execution_summaries k) = pre @ rest"
    by (simp_all add: Cons_nth_drop_Suc[symmetric])
  from Cons.hyps(1) Cons.prems(1) have "goes_through T (inference_data k) e c" by simp
  from collect_execution_through[OF this] obtain k1 where
    k1: "collect_execution T k e = Inr k1" and a1: "advanced k k1 c 1 (successes [e])"
    by blast
  have step: "collect_from T i k = collect_from T (Suc i) k1"
    by (subst collect_from.simps) (simp add: i ei k1)
  have "inference_data k1 = idir"
    using Cons.prems(1) a1 by (simp add: advanced_def)
  moreover have "drop (Suc i) (execution_summaries k1) = pre @ rest"
    using dr' a1 by (simp add: advanced_def)
  ultimately obtain k' where
    k': "collect_from T (Suc i) k1 = collect_from T (Suc i + length pre) k'"
    and a2: "advanced k1 k' (concat cs) (length pre) (successes pre)"
    using Cons.IH[of k1 "Suc i"] by blast
  from advanced_trans[OF a1 a2]
  have "advanced k k' (concat (c # cs)) (length (e # pre)) (successes (e # pre))"
    using successes_append[of "[e]" pre] by simp
  with step k' show ?case
    by (intro exI[of _ k']) simp
qed

lemma collect_from_through:
  assumes "list_all2 (goes_through T (inference_data k)) (execution_summaries k) cs"
  shows "\<exists>k'. collect_from T 0 k = Some (Inr k')
           \<and> advanced k k' (concat cs) (length (execution_summaries k)) (successes (execution_summaries k))"
proof -
  from collect_from_prefix[OF assms refl, of 0 "[]"] obtain k' where
    k': "collect_from T 0 k = collect_from T (0 + length (execution_summaries k)) k'"
    and a: "advanced k k' (concat cs) (length (execution_summaries k)) (successes (execution_summaries k))"
    by auto
  have "collect_from T (length (execution_summaries k)) k' = Some (Inr k')"
    using a by (subst collect_from.simps) (simp add: advanced_def)
  with k' a show ?thesis by auto
qed

lemma has_timestamp_dict: "has_timestamp v \<Longrightarrow> is_dict v"
  by (cases v) (simp_all add: has_timestamp_def timestamp_cell_def is_dict_def)

lemma frame_column_records:
  assumes "vs \<noteq> []" and "list_all has_timestamp vs"
  shows "frame_column T vs = Inr (map timestamp_cell vs)"
proof -
  from assms(2) have d: "list_all is_dict vs"
    by (auto simp: list_all_iff has_timestamp_dict)
  from assms obtain v where "v \<in> set vs" "timestamp_cell v \<noteq> None"
    by (cases vs) (auto simp: has_timestamp_def)
  then have "\<not> list_all (\<lambda>v. timestamp_cell v = None) vs"
    by (auto simp: list_all_iff)
  with d show ?thesis
    by (simp add: frame_column_def)
qed

lemma build_results_df_records:
  assumes "vs \<noteq> []" and "list_all has_timestamp vs"
    and "pd_to_datetime T (map timestamp_cell vs) = Inr stamps"
    and "\<not> (list_ex is_naive stamps \<and> list_ex is_aware stamps)"
  shows "build_results_df T vs =
           Inr (sort_key (\<lambda>row. (stamp_key (fst row), tie_rank T stamps (snd row)))
                  (zip stamps [0..<length vs]))"
  using assms(3,4) by (simp add: build_results_df_def frame_column_records[OF assms(1,2)])

lemma aggregate_results_through:
  assumes "list_all2 (goes_through T (inference_data k)) (execution_summaries k) cs"
    and "build_results_df T (concat cs) = Inr df"
  shows "\<exists>k'. aggregate_results T k = Some (Inr (k', df))
           \<and> advanced (k\<lparr>results_json := []\<rparr>) k' (concat cs)
                (length (execution_summaries k)) (successes (execution_summaries k))"
proof -
  have "list_all2 (goes_through T (inference_data (k\<lparr>results_json := []\<rparr>)))
          (execution_summaries (k\<lparr>results_json := []\<rparr>)) cs"
    using assms(1) by simp
  from collect_from_through[OF this] obtain k' where
    k': "collect_from T 0 (k\<lparr>results_json := []\<rparr>) = Some (Inr k')"
    and a: "advanced (k\<lparr>results_json := []\<rparr>) k' (concat cs)
              (length (execution_summaries k)) (successes (execution_summaries k))"
    by auto
  from a have "results_json k' = concat cs"
    by (simp add: advanced_def)
  with k' assms(2) have "aggregate_results T k = Some (Inr (k', df))"
    by (simp add: aggregate_results_def)
  with a show ?thesis by blast
qed

lemma sorted_rows:
  "sorted (map (stamp_key \<circ> fst)
     (sort_key (\<lambda>row. (stamp_key (fst row), r (snd row))) (rows :: (stamp \<times> nat) list)))"
proof -
  let ?df = "sort_key (\<lambda>row. (stamp_key (fst row), r (snd row))) rows"
  have s: "sorted (map (\<lambda>row. (stamp_key (fst row), r (snd row))) ?df)"
    by (rule sorted_sort_key)
  have "sorted (map (\<lambda>row. (stamp_key (fst row), r (snd row))) xs) \<Longrightarrow>
        sorted (map (stamp_key \<circ> fst) xs)" for xs :: "(stamp \<times> nat) list"
    by (induction xs) (auto simp: less_eq_prod_def less_le)
  from this[OF s] show ?thesis .
qed

lemma index_of_rows:
  "length stamps = n \<Longrightarrow>
   mset (map fst (sort_key f (zip stamps [0..<n]))) = mset stamps"
proof -
  assume n: "length stamps = n"
  have "mset (map fst (sort_key f (zip stamps [0..<n]))) = image_mset fst (mset (sort_key f (zip stamps [0..<n])))"
    by simp
  also have "\<dots> = image_mset fst (mset (zip stamps [0..<n]))"
    by simp
  also have "\<dots> = mset (map fst (zip stamps [0..<n]))"
    by simp
  also have "map fst (zip stamps [0..<n]) = stamps"
    using n by (simp add: map_fst_zip)
  finally show ?thesis .
qed

lemma sorted_instants:
  "sorted (map (stamp_key \<circ> fst) xs) \<Longrightarrow> \<forall>x\<in>set xs. fst x \<noteq> NaT \<Longrightarrow> sorted (map (instant \<circ> fst) xs)"
proof (induction xs)
  case Nil
  then show ?case by simp
next
  case (Cons x xs)
  have key: "stamp_key s = (False, instant s)" if "s \<noteq> NaT" for s
    using that by (cases s) (simp_all add: stamp_key_def instant_def)
  have "instant (fst x) \<le> instant (fst y)" if "y \<in> set xs" for y
  proof -
    from Cons.prems(1) that have "stamp_key (fst x) \<le> stamp_key (fst y)" by simp
    moreover from Cons.prems(2) that have "fst x \<noteq> NaT" "fst y \<noteq> NaT" by simp_all
    ultimately show ?thesis by (simp add: key)
  qed
  with Cons show ?case by simp
qed

lemma instant_inj:
  assumes "\<not> (list_ex is_naive stamps \<and> list_ex is_aware stamps)" and "NaT \<notin> set stamps"
  shows "inj_on instant (set stamps)"
proof (rule inj_onI)
  fix s t
  assume st: "s \<in> set stamps" "t \<in> set stamps" "instant s = instant t"
  with assms(2) have n: "s \<noteq> NaT" "t \<noteq> NaT" by auto
  show "s = t"
  proof (cases s)
    case NaT
    with n show ?thesis by simp
  next
    case (Naive a)
    then have "is_naive s" by (simp add: is_naive_def)
    with st(1) have "list_ex is_naive stamps"
      unfolding list_ex_iff by blast
    with assms(1) have "\<not> list_ex is_aware stamps" by simp
    with st(2) have "\<not> is_aware t" by (auto simp: list_ex_iff)
    with n(2) Naive st(3) show ?thesis
      by (cases t) (simp_all add: is_aware_def instant_def)
  next
    case (Aware a)
    then have "is_aware s" by (simp add: is_aware_def)
    with st(1) have "list_ex is_aware stamps"
      unfolding list_ex_iff by blast
    with assms(1) have "\<not> list_ex is_naive stamps" by simp
    with st(2) have "\<not> is_naive t" by (auto simp: list_ex_iff)
    with n(2) Aware st(3) show ?thesis
      by (cases t) (simp_all add: is_naive_def instant_def)
  qed
qed

lemma count_twice:
  assumes "i < j" and "j < length xs" and "xs ! i = xs ! j"
  shows "2 \<le> count (mset xs) (xs ! i)"
proof -
  have split: "xs = take j xs @ xs ! j # drop (Suc j) xs"
    using assms(2) by (rule id_take_nth_drop)
  have "xs ! i \<in> set (take j xs)"
    using assms(1,2) by (auto simp: in_set_conv_nth intro!: exI[of _ i])
  then have one: "1 \<le> count (mset (take j xs)) (xs ! i)"
    by (simp add: Suc_le_eq)
  have "count (mset xs) (xs ! i) =
      count (mset (take j xs)) (xs ! i) + count (mset (xs ! j # drop (Suc j) xs)) (xs ! i)"
    by (subst split) (simp only: mset_append count_union)
  also have "count (mset (xs ! j # drop (Suc j) xs)) (xs ! i) = Suc (count (mset (drop (Suc j) xs)) (xs ! i))"
    using assms(3) by simp
  finally show ?thesis using one by linarith
qed

lemmas sample_simps =
  aggregate_results_def collect_from.simps collect_execution_def sample_summary_def sample_kernel_def
  sample_tools_def penultimate_def split_on_def local_fname_def path_join_def s3_fname_def
  aws_s3_cp_def cp_command_def plain_word_def plain_char_def readlines_def
  sample_eval_def sample_record_def sample_to_datetime_def sample_stamp_def
  build_results_df_def frame_column_def is_dict_def is_scalar_def timestamp_cell_def
  is_naive_def is_aware_def stamp_key_def Let_def

lemmas sample_through =
  goes_through_def delivered_def pure_values_def has_timestamp_def

lemma collect_execution_raises:
  assumes "Status e = ''SUCCESS''"
    and "delivered T (inference_data k) e = Some (good @ bad # rest)"
    and "pure_values (py_eval T) good vs"
    and "\<forall>k. py_eval T bad k = (Inl err, k)"
  shows "\<exists>k'. collect_execution T k e = Inl (err, k') \<and> advanced k k' [] 1 1"
proof -
  from assms(2) obtain bucket key ts where
    cro: "CustomerResultObject e = Some (bucket, key)" and
    pen: "penultimate (split_on CHR ''/'' key) = Inr ts" and
    w1: "plain_word (s3_fname bucket key)" and
    w2: "plain_word (local_fname (inference_data k) ts)" and
    obj: "s3_fetch T (s3_fname bucket key) = Some (good @ bad # rest)"
    by (auto simp: delivered_def split: option.splits sum.splits prod.splits if_splits)
  define k1 where "k1 = k\<lparr>dots := dots k + 1\<rparr>"
  define k2 where "k2 = aws_s3_cp T (s3_fname bucket key) (local_fname (inference_data k) ts) k1"
  have rd: "readlines k2 (local_fname (inference_data k) ts) = Inr (good @ bad # rest)"
    unfolding k2_def using w1 w2 obj by (rule readlines_after_cp)
  have ev: "eval_lines (py_eval T) (good @ bad # rest) (k2\<lparr>comprehension := []\<rparr>)
              = Inl (err, k2\<lparr>comprehension := vs\<rparr>)"
    using eval_lines_raises[OF assms(3,4), of rest "k2\<lparr>comprehension := []\<rparr>"] by simp
  have "collect_execution T k e = Inl (err, k2\<lparr>comprehension := []\<rparr>)"
    using assms(1) cro pen rd ev unfolding k2_def k1_def
    by (simp add: collect_execution_def Let_def)
  moreover have "advanced k (k2\<lparr>comprehension := []\<rparr>) [] 1 1"
    by (simp add: k2_def k1_def aws_s3_cp_def advanced_def)
  ultimately show ?thesis by simp
qed

section \<open>The claims about the aggregation\<close>

text \<open>
  Claim C3, as stated, fails: two executions that report the same instant are merged
  without any error, and the timeline then holds both rows under one timestamp. Here
  the two results objects each hold one record for 20:00:00, with predictions 0 and 1;
  the rows of the timeline are given as a multiset, the order of rows of equal index
  being left open.
\<close>

theorem colliding_executions_counterexample:
  "map_option (map_sum fst (mset \<circ> snd))
     (aggregate_results
        (sample_tools
           [(''2021-04-07T20:05:00Z'', [''{'timestamp': '2021-04-07T20:00:00', 'prediction': 0}'']),
            (''2021-04-07T20:10:00Z'', [''{'timestamp': '2021-04-07T20:00:00', 'prediction': 1}''])])
        (sample_kernel
           [sample_summary 1617825900 ''2021-04-07T20:05:00Z'',
            sample_summary 1617826200 ''2021-04-07T20:10:00Z'']))
   = Some (Inr {#(Naive 1617825600, 0), (Naive 1617825600, 1)#})"
  by (simp add: sample_simps)

text \<open>
  Claim C3, amended. Take two executions that go through: their file names are plain
  shell words, their objects are delivered, and the evaluation of every line returns a
  value and leaves the notebook state as it was. When all their records carry a
  timestamp, the timestamp column is converted, one value per record, to values that
  can be compared with one another (not naive ones together with timezone-aware ones),
  and one instant is reported by both executions, the aggregation raises nothing: the
  timeline is built, it has exactly one row per record of the two executions, under
  the converted timestamp of that record (none overwritten, none rejected), and the
  shared instant occurs at least twice in its index.
\<close>

theorem colliding_executions_both_kept:
  assumes "execution_summaries k = [e1, e2]"
    and "goes_through T (inference_data k) e1 c1"
    and "goes_through T (inference_data k) e2 c2"
    and "list_all has_timestamp (c1 @ c2)"
    and "pd_to_datetime T (map timestamp_cell (c1 @ c2)) = Inr stamps"
    and "length stamps = length c1 + length c2"
    and "\<not> (list_ex is_naive stamps \<and> list_ex is_aware stamps)"
    and "i < length c1" and "j < length c2"
    and "stamps ! i = stamps ! (length c1 + j)"
  shows "\<exists>k' df. aggregate_results T k = Some (Inr (k', df))
           \<and> mset df = mset (zip stamps [0..<length c1 + length c2])
           \<and> 2 \<le> count (mset (map fst df)) (stamps ! i)"
proof -
  let ?df = "sort_key (\<lambda>row. (stamp_key (fst row), tie_rank T stamps (snd row)))
               (zip stamps [0..<length (c1 @ c2)])"
  have ne: "c1 @ c2 \<noteq> []"
    using assms(8) by auto
  have frame: "build_results_df T (concat [c1, c2]) = Inr ?df"
    using build_results_df_records[OF ne assms(4,5,7)] by simp
  have "list_all2 (goes_through T (inference_data k)) (execution_summaries k) [c1, c2]"
    using assms(1-3) by simp
  from aggregate_results_through[OF this frame] obtain k' where
    run: "aggregate_results T k = Some (Inr (k', ?df))"
    by blast
  have rows: "mset ?df = mset (zip stamps [0..<length c1 + length c2])"
    by simp
  have "mset (map fst ?df) = mset stamps"
    using assms(6) by (intro index_of_rows) simp
  moreover have "2 \<le> count (mset stamps) (stamps ! i)"
    using assms(6,8,9,10) by (intro count_twice[of i "length c1 + j"]) simp_all
  ultimately have twice: "2 \<le> count (mset (map fst ?df)) (stamps ! i)"
    by simp
  show ?thesis
    by (intro exI[of _ k'] exI[of _ ?df] conjI run rows twice)
qed

theorem colliding_executions_both_kept_witness:
  "[Naive 1617825600, Naive 1617825600] ! 0 = [Naive 1617825600, Naive 1617825600] ! (length [sample_record ''2021-04-07T20:00:00'' 0] + 0)
   \<and> (\<exists>k' df.
         aggregate_results
           (sample_tools
              [(''2021-04-07T20:05:00Z'', [''{'timestamp': '2021-04-07T20:00:00', 'prediction': 0}'']),
               (''2021-04-07T20:10:00Z'', [''{'timestamp': '2021-04-07T20:00:00', 'prediction': 1}''])])
           (sample_kernel
              [sample_summary 1617825900 ''2021-04-07T20:05:00Z'',
               sample_summary 1617826200 ''2021-04-07T20:10:00Z'']) = Some (Inr (k', df))
         \<and> mset df = mset (zip [Naive 1617825600, Naive 1617825600]
                          [0..<length [sample_record ''2021-04-07T20:00:00'' 0]
                                 + length [sample_record ''2021-04-07T20:00:00'' 1]])
         \<and> 2 \<le> count (mset (map fst df)) ([Naive 1617825600, Naive 1617825600] ! 0))"
proof (intro conjI)
  let ?T = "sample_tools
              [(''2021-04-07T20:05:00Z'', [''{'timestamp': '2021-04-07T20:00:00', 'prediction': 0}'']),
               (''2021-04-07T20:10:00Z'', [''{'timestamp': '2021-04-07T20:00:00', 'prediction': 1}''])]"
  let ?e1 = "sample_summary 1617825900 ''2021-04-07T20:05:00Z''"
  let ?e2 = "sample_summary 1617826200 ''2021-04-07T20:10:00Z''"
  let ?k = "sample_kernel [?e1, ?e2]"
  let ?r1 = "sample_record ''2021-04-07T20:00:00'' 0"
  let ?r2 = "sample_record ''2021-04-07T20:00:00'' 1"
  let ?stamps = "[Naive 1617825600, Naive 1617825600]"
  have es: "execution_summaries ?k = [?e1, ?e2]"
    by (simp add: sample_kernel_def)
  have g1: "goes_through ?T (inference_data ?k) ?e1 [?r1]"
    by (simp add: sample_through sample_simps)
  have g2: "goes_through ?T (inference_data ?k) ?e2 [?r2]"
    by (simp add: sample_through sample_simps)
  have ts: "list_all has_timestamp ([?r1] @ [?r2])"
    by (simp add: sample_through sample_simps)
  have td: "pd_to_datetime ?T (map timestamp_cell ([?r1] @ [?r2])) = Inr ?stamps"
    by (simp add: sample_simps)
  have len: "length ?stamps = length [?r1] + length [?r2]" by simp
  have cmp: "\<not> (list_ex is_naive ?stamps \<and> list_ex is_aware ?stamps)"
    by (simp add: is_aware_def)
  have i: "0 < length [?r1]" and j: "0 < length [?r2]" by simp_all
  show same: "?stamps ! 0 = ?stamps ! (length [?r1] + 0)" by simp
  from colliding_executions_both_kept[OF es g1 g2 ts td len cmp i j same]
  show "\<exists>k' df. aggregate_results ?T ?k = Some (Inr (k', df))
         \<and> mset df = mset (zip ?stamps [0..<length [?r1] + length [?r2]])
         \<and> 2 \<le> count (mset (map fst df)) (?stamps ! 0)" .
qed

text \<open>
  Claim C4, as stated, fails: here two successful executions hold one record each, for
  two different instants, the first written without an offset (20:00:00) and the second
  with one (20:05:00+00:00). The converted column holds a naive and a timezone-aware
  timestamp, which cannot be ordered: the cell raises \<^verbatim>\<open>TypeError\<close> and builds no
  timeline.
\<close>

theorem mixed_timestamps_counterexample:
  "map_option (map_sum fst snd)
     (aggregate_results
        (sample_tools
           [(''2021-04-07T20:05:00Z'', [''{'timestamp': '2021-04-07T20:00:00', 'prediction': 0}'']),
            (''2021-04-07T20:10:00Z'', [''{'timestamp': '2021-04-07T20:05:00+00:00', 'prediction': 0}''])])
        (sample_kernel
           [sample_summary 1617825900 ''2021-04-07T20:05:00Z'',
            sample_summary 1617826200 ''2021-04-07T20:10:00Z'']))
   = Some (Inl TypeError)"
  by (simp add: sample_simps)

text \<open>
  Claim C4, amended. Take two successful executions that go through (plain file names,
  objects delivered, every line evaluated to a value without any change of the
  notebook state) and whose objects hold at least one record between them. When every
  record carries a timestamp and the timestamp column is converted, one value per
  record, to timestamps that are all present (no \<^verbatim>\<open>NaT\<close>), comparable with one another
  (not naive ones together with timezone-aware ones) and pairwise distinct, the
  aggregation gives a timeline with as many rows as there are records in the two
  objects, in strictly ascending order of timestamp.
\<close>

theorem disjoint_executions_timeline:
  assumes "execution_summaries k = [e1, e2]"
    and "Status e1 = ''SUCCESS''" and "Status e2 = ''SUCCESS''"
    and "goes_through T (inference_data k) e1 c1"
    and "goes_through T (inference_data k) e2 c2"
    and "c1 @ c2 \<noteq> []"
    and "list_all has_timestamp (c1 @ c2)"
    and "pd_to_datetime T (map timestamp_cell (c1 @ c2)) = Inr stamps"
    and "length stamps = length c1 + length c2"
    and "\<not> (list_ex is_naive stamps \<and> list_ex is_aware stamps)"
    and "NaT \<notin> set stamps"
    and "distinct stamps"
  shows "\<exists>k' df. aggregate_results T k = Some (Inr (k', df))
           \<and> length df = length c1 + length c2
           \<and> sorted_wrt (<) (map (instant \<circ> fst) df)"
proof -
  let ?df = "sort_key (\<lambda>row. (stamp_key (fst row), tie_rank T stamps (snd row)))
               (zip stamps [0..<length (c1 @ c2)])"
  have frame: "build_results_df T (concat [c1, c2]) = Inr ?df"
    using build_results_df_records[OF assms(6,7,8,10)] by simp
  have "list_all2 (goes_through T (inference_data k)) (execution_summaries k) [c1, c2]"
    using assms(1,4,5) by simp
  from aggregate_results_through[OF this frame] obtain k' where
    run: "aggregate_results T k = Some (Inr (k', ?df))"
    by blast
  have len: "length ?df = length c1 + length c2"
    using assms(9) by simp
  have idx: "mset (map fst ?df) = mset stamps"
    using assms(9) by (intro index_of_rows) simp
  then have set: "set (map fst ?df) = set stamps"
    by (rule mset_eq_setD)
  have "sorted (map (stamp_key \<circ> fst) ?df)"
    by (rule sorted_rows)
  moreover have "\<forall>x\<in>set ?df. fst x \<noteq> NaT"
    using set assms(11) by (metis imageI list.set_map)
  ultimately have sorted: "sorted (map (instant \<circ> fst) ?df)"
    by (rule sorted_instants)
  from mset_eq_imp_distinct_iff[OF idx] assms(12) have "distinct (map fst ?df)"
    by (simp only:)
  moreover have "inj_on instant (set (map fst ?df))"
    unfolding set using assms(10,11) by (rule instant_inj)
  ultimately have "distinct (map instant (map fst ?df))"
    by (simp only: distinct_map simp_thms)
  then have "distinct (map (instant \<circ> fst) ?df)"
    by simp
  with sorted have strict: "sorted_wrt (<) (map (instant \<circ> fst) ?df)"
    by (simp only: strict_sorted_iff)
  show ?thesis
    by (intro exI[of _ k'] exI[of _ ?df] conjI run len strict)
qed

theorem disjoint_executions_timeline_witness:
  "distinct [Naive 1617825900, Naive 1617825600]
   \<and> (\<exists>k' df.
         aggregate_results
           (sample_tools
              [(''2021-04-07T20:10:00Z'', [''{'timestamp': '2021-04-07T20:05:00', 'prediction': 0}'']),
               (''2021-04-07T20:05:00Z'', [''{'timestamp': '2021-04-07T20:00:00', 'prediction': 1}''])])
           (sample_kernel
              [sample_summary 1617826200 ''2021-04-07T20:10:00Z'',
               sample_summary 1617825900 ''2021-04-07T20:05:00Z'']) = Some (Inr (k', df))
         \<and> length df = length [sample_record ''2021-04-07T20:05:00'' 0]
                         + length [sample_record ''2021-04-07T20:00:00'' 1]
         \<and> sorted_wrt (<) (map (instant \<circ> fst) df))"
proof (intro conjI)
  let ?T = "sample_tools
              [(''2021-04-07T20:10:00Z'', [''{'timestamp': '2021-04-07T20:05:00', 'prediction': 0}'']),
               (''2021-04-07T20:05:00Z'', [''{'timestamp': '2021-04-07T20:00:00', 'prediction': 1}''])]"
  let ?e1 = "sample_summary 1617826200 ''2021-04-07T20:10:00Z''"
  let ?e2 = "sample_summary 1617825900 ''2021-04-07T20:05:00Z''"
  let ?k = "sample_kernel [?e1, ?e2]"
  let ?r1 = "sample_record ''2021-04-07T20:05:00'' 0"
  let ?r2 = "sample_record ''2021-04-07T20:00:00'' 1"
  let ?stamps = "[Naive 1617825900, Naive 1617825600]"
  have es: "execution_summaries ?k = [?e1, ?e2]"
    by (simp add: sample_kernel_def)
  have s1: "Status ?e1 = ''SUCCESS''" and s2: "Status ?e2 = ''SUCCESS''"
    by (simp_all add: sample_summary_def)
  have g1: "goes_through ?T (inference_data ?k) ?e1 [?r1]"
    by (simp add: sample_through sample_simps)
  have g2: "goes_through ?T (inference_data ?k) ?e2 [?r2]"
    by (simp add: sample_through sample_simps)
  have ne: "[?r1] @ [?r2] \<noteq> []" by simp
  have ts: "list_all has_timestamp ([?r1] @ [?r2])"
    by (simp add: sample_through sample_simps)
  have td: "pd_to_datetime ?T (map timestamp_cell ([?r1] @ [?r2])) = Inr ?stamps"
    by (simp add: sample_simps)
  have len: "length ?stamps = length [?r1] + length [?r2]" by simp
  have cmp: "\<not> (list_ex is_naive ?stamps \<and> list_ex is_aware ?stamps)"
    by (simp add: is_aware_def)
  have nat: "NaT \<notin> set ?stamps" by simp
  show d: "distinct ?stamps" by simp
  from disjoint_executions_timeline[OF es s1 s2 g1 g2 ne ts td len cmp nat d]
  show "\<exists>k' df. aggregate_results ?T ?k = Some (Inr (k', df))
         \<and> length df = length [?r1] + length [?r2]
         \<and> sorted_wrt (<) (map (instant \<circ> fst) df)" .
qed

text \<open>
  Claim C7, as stated, fails: there is no per-execution failure. Here the first
  execution's object is well formed, the second one's object has a good line followed
  by a truncated one, and a third execution is listed after it. The exception raised on
  the truncated line ends the whole cell: no timeline is built, the third execution is
  never looked at (two dots printed, two copy commands run), and in the state the cell
  leaves behind \<^verbatim>\<open>results_json\<close> and \<^verbatim>\<open>content\<close> hold the first execution's record
  and nothing of the second one.
\<close>

theorem eval_failure_counterexample:
  "map_option (map_sum (\<lambda>(err, k). (err, results_json k, content k, dots k, shell k)) (\<lambda>r. ()))
     (aggregate_results
        (sample_tools
           [(''2021-04-07T20:05:00Z'', [''{'timestamp': '2021-04-07T20:00:00', 'prediction': 0}'']),
            (''2021-04-07T20:10:00Z'', [''{'timestamp': '2021-04-07T20:05:00', 'prediction': 0}'',
                                        ''{'timestamp': '2021-04-07T20:06:00', '']),
            (''2021-04-07T20:15:00Z'', [''{'timestamp': '2021-04-07T20:00:00', 'prediction': 1}''])])
        (sample_kernel
           [sample_summary 1617825900 ''2021-04-07T20:05:00Z'',
            sample_summary 1617826200 ''2021-04-07T20:10:00Z'',
            sample_summary 1617826500 ''2021-04-07T20:15:00Z'']))
   = Some (Inl (EvalError ''SyntaxError'',
                [sample_record ''2021-04-07T20:00:00'' 0],
                [sample_record ''2021-04-07T20:00:00'' 0],
                2,
                [''aws s3 cp --quiet s3://bucket/output/2021-04-07T20:05:00Z/results.jsonl data/output/centrifugal-pump_2021-04-07T20:05:00Z.jsonl'',
                 ''aws s3 cp --quiet s3://bucket/output/2021-04-07T20:10:00Z/results.jsonl data/output/centrifugal-pump_2021-04-07T20:10:00Z.jsonl'']))"
  by (simp add: sample_simps)

text \<open>
  Claim C7, amended. Let the executions listed before \<open>e\<close> go through, let \<open>e\<close> be a
  success whose object is delivered under plain file names, and let its lines be some
  lines evaluated to values without any change of the notebook state, followed by a
  line on which the evaluation raises (changing nothing). Then the whole cell ends with
  that exception, whatever executions are listed after \<open>e\<close>, and builds no timeline. In
  the state it leaves, \<^verbatim>\<open>results_json\<close> holds exactly the records of the executions
  before \<open>e\<close> and none of the records of \<open>e\<close>, one dot has been printed for each
  execution up to and including \<open>e\<close>, and one copy command has been run for each
  success up to and including \<open>e\<close>: the executions after \<open>e\<close> are not processed.
\<close>

theorem eval_failure_aborts_pass:
  assumes "execution_summaries k = pre @ e # post"
    and "list_all2 (goes_through T (inference_data k)) pre cs"
    and "Status e = ''SUCCESS''"
    and "delivered T (inference_data k) e = Some (good @ bad # rest)"
    and "pure_values (py_eval T) good vs"
    and "\<forall>k. py_eval T bad k = (Inl err, k)"
  shows "\<exists>k'. aggregate_results T k = Some (Inl (err, k'))
           \<and> results_json k' = concat cs
           \<and> dots k' = dots k + length pre + 1
           \<and> length (shell k') = length (shell k) + successes pre + 1"
proof -
  let ?k0 = "k\<lparr>results_json := []\<rparr>"
  have dr: "drop 0 (execution_summaries ?k0) = pre @ e # post"
    using assms(1) by simp
  have idir: "inference_data ?k0 = inference_data k"
    by simp
  from collect_from_prefix[OF assms(2) idir dr] obtain k1 where
    run: "collect_from T 0 ?k0 = collect_from T (0 + length pre) k1"
    and a1: "advanced ?k0 k1 (concat cs) (length pre) (successes pre)"
    by blast
  from a1 have es: "execution_summaries k1 = pre @ e # post"
    and id1: "inference_data k1 = inference_data k"
    using assms(1) by (simp_all add: advanced_def)
  from assms(4) id1 have d1: "delivered T (inference_data k1) e = Some (good @ bad # rest)"
    by simp
  from collect_execution_raises[OF assms(3) d1 assms(5,6)] obtain k' where
    raise: "collect_execution T k1 e = Inl (err, k')"
    and a2: "advanced k1 k' [] 1 1"
    by blast
  have "collect_from T (length pre) k1 = Some (Inl (err, k'))"
    by (subst collect_from.simps) (simp add: es raise)
  with run have "aggregate_results T k = Some (Inl (err, k'))"
    by (simp add: aggregate_results_def)
  moreover from a1 a2 have "results_json k' = concat cs"
    and "dots k' = dots k + length pre + 1"
    and "length (shell k') = length (shell k) + successes pre + 1"
    by (simp_all add: advanced_def)
  ultimately show ?thesis
    by blast
qed

theorem eval_failure_aborts_pass_witness:
  "(\<forall>k. py_eval
          (sample_tools
             [(''2021-04-07T20:05:00Z'', [''{'timestamp': '2021-04-07T20:00:00', 'prediction': 0}'']),
              (''2021-04-07T20:10:00Z'', [''{'timestamp': '2021-04-07T20:05:00', 'prediction': 0}'',
                                          ''{'timestamp': '2021-04-07T20:06:00', '']),
              (''2021-04-07T20:15:00Z'', [''{'timestamp': '2021-04-07T20:00:00', 'prediction': 1}''])])
          ''{'timestamp': '2021-04-07T20:06:00', '' k = (Inl (EvalError ''SyntaxError''), k))
   \<and> (\<exists>k'.
         aggregate_results
           (sample_tools
              [(''2021-04-07T20:05:00Z'', [''{'timestamp': '2021-04-07T20:00:00', 'prediction': 0}'']),
               (''2021-04-07T20:10:00Z'', [''{'timestamp': '2021-04-07T20:05:00', 'prediction': 0}'',
                                           ''{'timestamp': '2021-04-07T20:06:00', '']),
               (''2021-04-07T20:15:00Z'', [''{'timestamp': '2021-04-07T20:00:00', 'prediction': 1}''])])
           (sample_kernel
              [sample_summary 1617825900 ''2021-04-07T20:05:00Z'',
               sample_summary 1617826200 ''2021-04-07T20:10:00Z'',
               sample_summary 1617826500 ''2021-04-07T20:15:00Z''])
           = Some (Inl (EvalError ''SyntaxError'', k'))
         \<and> results_json k' = concat [ [sample_record ''2021-04-07T20:00:00'' 0] ]
         \<and> dots k' = dots (sample_kernel
              [sample_summary 1617825900 ''2021-04-07T20:05:00Z'',
               sample_summary 1617826200 ''2021-04-07T20:10:00Z'',
               sample_summary 1617826500 ''2021-04-07T20:15:00Z''])
             + length [sample_summary 1617825900 ''2021-04-07T20:05:00Z''] + 1
         \<and> length (shell k') = length (shell (sample_kernel
              [sample_summary 1617825900 ''2021-04-07T20:05:00Z'',
               sample_summary 1617826200 ''2021-04-07T20:10:00Z'',
               sample_summary 1617826500 ''2021-04-07T20:15:00Z'']))
             + successes [sample_summary 1617825900 ''2021-04-07T20:05:00Z''] + 1)"
proof (intro conjI)
  let ?T = "sample_tools
             [(''2021-04-07T20:05:00Z'', [''{'timestamp': '2021-04-07T20:00:00', 'prediction': 0}'']),
              (''2021-04-07T20:10:00Z'', [''{'timestamp': '2021-04-07T20:05:00', 'prediction': 0}'',
                                          ''{'timestamp': '2021-04-07T20:06:00', '']),
              (''2021-04-07T20:15:00Z'', [''{'timestamp': '2021-04-07T20:00:00', 'prediction': 1}''])]"
  let ?e1 = "sample_summary 1617825900 ''2021-04-07T20:05:00Z''"
  let ?e2 = "sample_summary 1617826200 ''2021-04-07T20:10:00Z''"
  let ?e3 = "sample_summary 1617826500 ''2021-04-07T20:15:00Z''"
  let ?k = "sample_kernel [?e1, ?e2, ?e3]"
  let ?bad = "''{'timestamp': '2021-04-07T20:06:00', ''"
  have es: "execution_summaries ?k = [?e1] @ ?e2 # [?e3]"
    by (simp add: sample_kernel_def)
  have pre: "list_all2 (goes_through ?T (inference_data ?k)) [?e1] [ [sample_record ''2021-04-07T20:00:00'' 0] ]"
    by (simp add: sample_through sample_simps)
  have st: "Status ?e2 = ''SUCCESS''"
    by (simp add: sample_summary_def)
  have del: "delivered ?T (inference_data ?k) ?e2
               = Some ([''{'timestamp': '2021-04-07T20:05:00', 'prediction': 0}''] @ ?bad # [])"
    by (simp add: sample_through sample_simps)
  have good: "pure_values (py_eval ?T) [''{'timestamp': '2021-04-07T20:05:00', 'prediction': 0}'']
                [sample_record ''2021-04-07T20:05:00'' 0]"
    by (simp add: sample_through sample_simps)
  show bad: "\<forall>k. py_eval ?T ?bad k = (Inl (EvalError ''SyntaxError''), k)"
    by (simp add: sample_tools_def sample_eval_def)
  from eval_failure_aborts_pass[OF es pre st del good bad]
  show "\<exists>k'. aggregate_results ?T ?k = Some (Inl (EvalError ''SyntaxError'', k'))
         \<and> results_json k' = concat [ [sample_record ''2021-04-07T20:00:00'' 0] ]
         \<and> dots k' = dots ?k + length [?e1] + 1
         \<and> length (shell k') = length (shell ?k) + successes [?e1] + 1" .
qed

text \<open>
  Claim C10, as stated, fails in one part: a syntactically valid expression is not
  always accepted. The line \<^verbatim>\<open>1/0\<close> is a valid expression, its evaluation raises
  \<^verbatim>\<open>ZeroDivisionError\<close>, and the cell ends with that exception, nothing having been
  added to the results. And the line \<^verbatim>\<open>1 + 1\<close> is taken by the loop with the value 2,
  after which the frame has no \<^verbatim>\<open>timestamp\<close> column and the cell raises \<^verbatim>\<open>KeyError\<close>.
\<close>

theorem eval_raises_counterexample:
  "sample_eval ''1/0'' (sample_kernel [sample_summary 1617825900 ''2021-04-07T20:05:00Z''])
     = (Inl (EvalError ''ZeroDivisionError''), sample_kernel [sample_summary 1617825900 ''2021-04-07T20:05:00Z''])
   \<and> map_option (map_sum (\<lambda>(err, k). (err, results_json k)) snd)
       (aggregate_results
          (sample_tools [(''2021-04-07T20:05:00Z'', [''1/0''])])
          (sample_kernel [sample_summary 1617825900 ''2021-04-07T20:05:00Z'']))
     = Some (Inl (EvalError ''ZeroDivisionError'', []))
   \<and> map_option (map_sum (\<lambda>(err, k). (err, results_json k)) snd)
       (aggregate_results
          (sample_tools [(''2021-04-07T20:05:00Z'', [''1 + 1''])])
          (sample_kernel [sample_summary 1617825900 ''2021-04-07T20:05:00Z'']))
     = Some (Inl (KeyError ''timestamp'', [PyInt 2]))"
  by (simp add: sample_simps)

text \<open>
  Claim C10, amended. The record of a line is whatever the evaluation of the line
  returns. For a successful execution whose object is delivered under plain file
  names, and for any lines and any values at all: if the evaluation of each line
  returns its value and leaves the notebook state as it was, the loop body appends
  exactly these values to the accumulated results. Nothing in the loop checks that a
  value is a dict, or has a timestamp, a prediction or diagnostics. The line
  \<^verbatim>\<open>dict(timestamp='2021-04-07T20:00:00', prediction=0)\<close>, which is not JSON and has no
  diagnostics, is accepted, and the cell builds a timeline from it.
\<close>

theorem eval_values_accepted:
  assumes "Status e = ''SUCCESS''"
    and "delivered T (inference_data k) e = Some lines"
    and "pure_values (py_eval T) lines vs"
  shows "\<exists>k'. collect_execution T k e = Inr k' \<and> results_json k' = results_json k @ vs"
proof -
  from assms have "goes_through T (inference_data k) e vs"
    by (simp add: goes_through_def)
  from collect_execution_through[OF this] show ?thesis
    by (auto simp: advanced_def)
qed

theorem eval_values_accepted_witness:
  "pure_values (py_eval (sample_tools [(''2021-04-07T20:05:00Z'', [''dict(timestamp='2021-04-07T20:00:00', prediction=0)''])]))
     [''dict(timestamp='2021-04-07T20:00:00', prediction=0)''] [sample_record ''2021-04-07T20:00:00'' 0]
   \<and> (\<exists>k'. collect_execution
              (sample_tools [(''2021-04-07T20:05:00Z'', [''dict(timestamp='2021-04-07T20:00:00', prediction=0)''])])
              (sample_kernel [sample_summary 1617825900 ''2021-04-07T20:05:00Z''])
              (sample_summary 1617825900 ''2021-04-07T20:05:00Z'') = Inr k'
          \<and> results_json k'
              = results_json (sample_kernel [sample_summary 1617825900 ''2021-04-07T20:05:00Z''])
                  @ [sample_record ''2021-04-07T20:00:00'' 0])
   \<and> map_option (map_sum fst snd)
       (aggregate_results
          (sample_tools [(''2021-04-07T20:05:00Z'', [''dict(timestamp='2021-04-07T20:00:00', prediction=0)''])])
          (sample_kernel [sample_summary 1617825900 ''2021-04-07T20:05:00Z'']))
     = Some (Inr [(Naive 1617825600, 0)])"
proof (intro conjI)
  let ?T = "sample_tools [(''2021-04-07T20:05:00Z'', [''dict(timestamp='2021-04-07T20:00:00', prediction=0)''])]"
  let ?e = "sample_summary 1617825900 ''2021-04-07T20:05:00Z''"
  let ?k = "sample_kernel [?e]"
  let ?lines = "[''dict(timestamp='2021-04-07T20:00:00', prediction=0)'']"
  have st: "Status ?e = ''SUCCESS''"
    by (simp add: sample_summary_def)
  have del: "delivered ?T (inference_data ?k) ?e = Some ?lines"
    by (simp add: sample_through sample_simps)
  show vals: "pure_values (py_eval ?T) ?lines [sample_record ''2021-04-07T20:00:00'' 0]"
    by (simp add: sample_through sample_simps)
  from eval_values_accepted[OF st del vals]
  show "\<exists>k'. collect_execution ?T ?k ?e = Inr k'
          \<and> results_json k' = results_json ?k @ [sample_record ''2021-04-07T20:00:00'' 0]" .
  show "map_option (map_sum fst snd) (aggregate_results ?T ?k) = Some (Inr [(Naive 1617825600, 0)])"
    by (simp add: sample_simps)
qed

text \<open>
  Claim C8, as stated, fails. Running the cell a second time on the same list copies
  and evaluates the same results object again (the copy command appears a second time
  in the shell log): an execution already aggregated is processed again. And a summary
  listed twice puts its record into the timeline twice: the aggregation removes no
  duplicate.
\<close>

theorem repeated_pass_counterexample:
  "aggregate_results
     (sample_tools [(''2021-04-07T20:05:00Z'', [''{'timestamp': '2021-04-07T20:00:00', 'prediction': 0}''])])
     (sample_kernel [sample_summary 1617825900 ''2021-04-07T20:05:00Z''])
   = Some (Inr (\<lparr>execution_summaries = [sample_summary 1617825900 ''2021-04-07T20:05:00Z''],
                 inference_data = ''data'',
                 results_json = [sample_record ''2021-04-07T20:00:00'' 0],
                 content = [sample_record ''2021-04-07T20:00:00'' 0],
                 comprehension = [],
                 files = [(''data/output/centrifugal-pump_2021-04-07T20:05:00Z.jsonl'',
                           [''{'timestamp': '2021-04-07T20:00:00', 'prediction': 0}''])],
                 shell = [''aws s3 cp --quiet s3://bucket/output/2021-04-07T20:05:00Z/results.jsonl data/output/centrifugal-pump_2021-04-07T20:05:00Z.jsonl''],
                 dots = 1\<rparr>,
                [(Naive 1617825600, 0)]))
   \<and> aggregate_results
     (sample_tools [(''2021-04-07T20:05:00Z'', [''{'timestamp': '2021-04-07T20:00:00', 'prediction': 0}''])])
     \<lparr>execution_summaries = [sample_summary 1617825900 ''2021-04-07T20:05:00Z''],
      inference_data = ''data'',
      results_json = [sample_record ''2021-04-07T20:00:00'' 0],
      content = [sample_record ''2021-04-07T20:00:00'' 0],
      comprehension = [],
      files = [(''data/output/centrifugal-pump_2021-04-07T20:05:00Z.jsonl'',
                [''{'timestamp': '2021-04-07T20:00:00', 'prediction': 0}''])],
      shell = [''aws s3 cp --quiet s3://bucket/output/2021-04-07T20:05:00Z/results.jsonl data/output/centrifugal-pump_2021-04-07T20:05:00Z.jsonl''],
      dots = 1\<rparr>
   = Some (Inr (\<lparr>execution_summaries = [sample_summary 1617825900 ''2021-04-07T20:05:00Z''],
                 inference_data = ''data'',
                 results_json = [sample_record ''2021-04-07T20:00:00'' 0],
                 content = [sample_record ''2021-04-07T20:00:00'' 0],
                 comprehension = [],
                 files = [(''data/output/centrifugal-pump_2021-04-07T20:05:00Z.jsonl'',
                           [''{'timestamp': '2021-04-07T20:00:00', 'prediction': 0}'']),
                          (''data/output/centrifugal-pump_2021-04-07T20:05:00Z.jsonl'',
                           [''{'timestamp': '2021-04-07T20:00:00', 'prediction': 0}''])],
                 shell = [''aws s3 cp --quiet s3://bucket/output/2021-04-07T20:05:00Z/results.jsonl data/output/centrifugal-pump_2021-04-07T20:05:00Z.jsonl'',
                          ''aws s3 cp --quiet s3://bucket/output/2021-04-07T20:05:00Z/results.jsonl data/output/centrifugal-pump_2021-04-07T20:05:00Z.jsonl''],
                 dots = 2\<rparr>,
                [(Naive 1617825600, 0)]))
   \<and> map_option (map_sum fst (mset \<circ> snd))
       (aggregate_results
          (sample_tools [(''2021-04-07T20:05:00Z'', [''{'timestamp': '2021-04-07T20:00:00', 'prediction': 0}''])])
          (sample_kernel [sample_summary 1617825900 ''2021-04-07T20:05:00Z'',
                          sample_summary 1617825900 ''2021-04-07T20:05:00Z'']))
     = Some (Inr {#(Naive 1617825600, 0), (Naive 1617825600, 1)#})"
  by (simp add: sample_simps)

text \<open>
  Claim C8, amended. Every run of the aggregation cell starts from an empty accumulator
  and processes every summary listed at that time. When the listed executions go
  through, the timeline of a run is the frame of their records, each execution
  contributing once per occurrence in the list, with one copy command per successful
  summary; a second run on the same list copies every object again and builds the same
  timeline anew, so nothing is carried over from one run to the next.
\<close>

theorem repeated_pass_reprocesses:
  assumes "list_all2 (goes_through T (inference_data k)) (execution_summaries k) cs"
    and "aggregate_results T k = Some (Inr (k1, df))"
  shows "build_results_df T (concat cs) = Inr df
       \<and> length (shell k1) = length (shell k)
           + length (filter (\<lambda>e. Status e = ''SUCCESS'') (execution_summaries k))
       \<and> (\<exists>k2. aggregate_results T k1 = Some (Inr (k2, df))
              \<and> length (shell k2) = length (shell k1)
                  + length (filter (\<lambda>e. Status e = ''SUCCESS'') (execution_summaries k)))"
proof -
  let ?k0 = "k\<lparr>results_json := []\<rparr>"
  let ?n = "length (filter (\<lambda>e. Status e = ''SUCCESS'') (execution_summaries k))"
  have "list_all2 (goes_through T (inference_data ?k0)) (execution_summaries ?k0) cs"
    using assms(1) by simp
  from collect_from_through[OF this] obtain k' where
    first: "collect_from T 0 ?k0 = Some (Inr k')"
    and a: "advanced ?k0 k' (concat cs) (length (execution_summaries k)) (successes (execution_summaries k))"
    by auto
  from a have rs: "results_json k' = concat cs"
    by (simp add: advanced_def)
  from assms(2) first rs have k1: "k1 = k'" and df: "build_results_df T (concat cs) = Inr df"
    by (auto simp: aggregate_results_def split: sum.splits)
  from a k1 have sh1: "length (shell k1) = length (shell k) + ?n"
    and es1: "execution_summaries k1 = execution_summaries k"
    and id1: "inference_data k1 = inference_data k"
    by (simp_all add: advanced_def successes_def)
  have "list_all2 (goes_through T (inference_data k1)) (execution_summaries k1) cs"
    using assms(1) es1 id1 by simp
  from aggregate_results_through[OF this df] obtain k2 where
    second: "aggregate_results T k1 = Some (Inr (k2, df))"
    and a2: "advanced (k1\<lparr>results_json := []\<rparr>) k2 (concat cs)
               (length (execution_summaries k1)) (successes (execution_summaries k1))"
    by blast
  from a2 es1 have sh2: "length (shell k2) = length (shell k1) + ?n"
    by (simp add: advanced_def successes_def)
  show ?thesis
    using df sh1 second sh2 by blast
qed

theorem repeated_pass_reprocesses_witness:
  "aggregate_results
     (sample_tools [(''2021-04-07T20:05:00Z'', [''{'timestamp': '2021-04-07T20:00:00', 'prediction': 0}''])])
     (sample_kernel [sample_summary 1617825900 ''2021-04-07T20:05:00Z''])
   = Some (Inr (\<lparr>execution_summaries = [sample_summary 1617825900 ''2021-04-07T20:05:00Z''],
                 inference_data = ''data'',
                 results_json = [sample_record ''2021-04-07T20:00:00'' 0],
                 content = [sample_record ''2021-04-07T20:00:00'' 0],
                 comprehension = [],
                 files = [(''data/output/centrifugal-pump_2021-04-07T20:05:00Z.jsonl'',
                           [''{'timestamp': '2021-04-07T20:00:00', 'prediction': 0}''])],
                 shell = [''aws s3 cp --quiet s3://bucket/output/2021-04-07T20:05:00Z/results.jsonl data/output/centrifugal-pump_2021-04-07T20:05:00Z.jsonl''],
                 dots = 1\<rparr>,
                [(Naive 1617825600, 0)]))
   \<and> build_results_df
       (sample_tools [(''2021-04-07T20:05:00Z'', [''{'timestamp': '2021-04-07T20:00:00', 'prediction': 0}''])])
       (concat [ [sample_record ''2021-04-07T20:00:00'' 0] ]) = Inr [(Naive 1617825600, 0)]
   \<and> (\<exists>k2. aggregate_results
       (sample_tools [(''2021-04-07T20:05:00Z'', [''{'timestamp': '2021-04-07T20:00:00', 'prediction': 0}''])])
       \<lparr>execution_summaries = [sample_summary 1617825900 ''2021-04-07T20:05:00Z''],
        inference_data = ''data'',
        results_json = [sample_record ''2021-04-07T20:00:00'' 0],
        content = [sample_record ''2021-04-07T20:00:00'' 0],
        comprehension = [],
        files = [(''data/output/centrifugal-pump_2021-04-07T20:05:00Z.jsonl'',
                  [''{'timestamp': '2021-04-07T20:00:00', 'prediction': 0}''])],
        shell = [''aws s3 cp --quiet s3://bucket/output/2021-04-07T20:05:00Z/results.jsonl data/output/centrifugal-pump_2021-04-07T20:05:00Z.jsonl''],
        dots = 1\<rparr> = Some (Inr (k2, [(Naive 1617825600, 0)]))
       \<and> length (shell k2) = 1 + 1)"
proof -
  let ?T = "sample_tools [(''2021-04-07T20:05:00Z'', [''{'timestamp': '2021-04-07T20:00:00', 'prediction': 0}''])]"
  let ?e = "sample_summary 1617825900 ''2021-04-07T20:05:00Z''"
  let ?k = "sample_kernel [?e]"
  let ?k1 = "\<lparr>execution_summaries = [?e],
        inference_data = ''data'',
        results_json = [sample_record ''2021-04-07T20:00:00'' 0],
        content = [sample_record ''2021-04-07T20:00:00'' 0],
        comprehension = [],
        files = [(''data/output/centrifugal-pump_2021-04-07T20:05:00Z.jsonl'',
                  [''{'timestamp': '2021-04-07T20:00:00', 'prediction': 0}''])],
        shell = [''aws s3 cp --quiet s3://bucket/output/2021-04-07T20:05:00Z/results.jsonl data/output/centrifugal-pump_2021-04-07T20:05:00Z.jsonl''],
        dots = 1\<rparr>"
  have through: "list_all2 (goes_through ?T (inference_data ?k)) (execution_summaries ?k)
                   [ [sample_record ''2021-04-07T20:00:00'' 0] ]"
    by (simp add: sample_through sample_simps)
  have run: "aggregate_results ?T ?k = Some (Inr (?k1, [(Naive 1617825600, 0)]))"
    by (simp add: sample_simps)
  have n: "length (filter (\<lambda>e. Status e = ''SUCCESS'') (execution_summaries ?k)) = 1"
    by (simp add: sample_kernel_def sample_summary_def)
  from repeated_pass_reprocesses[OF through run] n
  have "build_results_df ?T (concat [ [sample_record ''2021-04-07T20:00:00'' 0] ]) = Inr [(Naive 1617825600, 0)]
       \<and> (\<exists>k2. aggregate_results ?T ?k1 = Some (Inr (k2, [(Naive 1617825600, 0)]))
              \<and> length (shell k2) = 1 + 1)"
    by simp
  with run show ?thesis
    by (simp only: simp_thms)
qed


section \<open>Properties of the specified components\<close>

lemma utc_fire_time: "utc 2021 1 27 9 15 0 = 1611738900"
  by (simp add: utc_def days_from_civil_def Let_def)

lemma render_compact_fire: "render Compact 0 1611738600 = ''20210127091000''"
  by code_simp

lemma validate_notebook:
  "validate notebook_params =
     Inr \<lparr>frequency_minutes = 5, delay_minutes = 2, offset_minutes = 0, delimiter = ''_'', format = Compact\<rparr>"
  by (simp add: notebook_params_def validate_def parse_frequency_def parse_timezone_def
      digit_value_def parse_delimiter_def parse_format_def)

lemma key_notebook:
  "expected_key notebook_params ''centrifugal-pump'' (utc 2021 1 27 9 15 0)
     = Inr ''centrifugal-pump_20210127091000.csv''"
  by (simp add: expected_key_def validate_notebook filename_timestamp_def utc_fire_time
      render_compact_fire)

lemma decimal_digit: "n < 10 \<Longrightarrow> decimal n = [digit_char (int n)]"
  by (subst decimal.simps) simp

lemma decimal_two: "10 \<le> n \<Longrightarrow> n < 100 \<Longrightarrow>
    decimal n = [digit_char (int (n div 10)), digit_char (int (n mod 10))]"
  by (subst decimal.simps) (simp add: decimal_digit)

lemma length_padded_two:
  assumes "0 \<le> n" "n < 100"
  shows "length (padded 2 n) = 2"
proof (cases "n < 10")
  case True
  with assms have "decimal (nat n) = [digit_char n]"
    by (simp add: decimal_digit)
  with True assms show ?thesis
    by (simp add: padded_def)
next
  case False
  with assms have "decimal (nat n) = [digit_char (int (nat n div 10)), digit_char (int (nat n mod 10))]"
    by (intro decimal_two) auto
  with assms show ?thesis
    by (simp add: padded_def)
qed

lemma padded_two_15:
  assumes "0 \<le> n" "n < 60" "padded 2 n = ''15''"
  shows "n = 15"
proof -
  from assms(1,2) have "n \<in> set [0..59]" by simp
  moreover have "\<forall>m\<in>set [0..59]. padded 2 m = ''15'' \<longrightarrow> m = 15"
    by code_simp
  ultimately show ?thesis using assms(3) by blast
qed

lemma render_compact_shape:
  "\<exists>a. render Compact z t =
     a @ padded 2 ((t + 60 * z) mod 86400 mod 3600 div 60) @ padded 2 ((t + 60 * z) mod 86400 mod 60)"
  by (simp add: render_def Let_def split: prod.split)

lemma parse_timezone_half_hours:
  assumes "parse_timezone s = Inr z"
  shows "\<exists>k. z = 30 * k"
  using assms unfolding parse_timezone_def Let_def
  apply (auto split: list.splits option.splits if_splits)
  apply presburger+
  done

lemma minute_of_run:
  "(1611738600 + 60 * (30 * k)) mod 86400 mod 3600 div 60 \<noteq> (15::int)"
proof -
  have a: "(1611738600 + 60 * (30 * k)) mod 86400 mod 3600 = (1611738600 + 60 * (30 * k)) mod 3600"
    by (simp add: mod_mod_cancel)
  have b: "1611738600 + 60 * (30 * k) = 3600 * 447705 + (600 + 1800 * k)"
    by simp
  have c: "(3600 * 447705 + (600 + 1800 * k)) mod 3600 = (600 + 1800 * k) mod 3600"
    by (rule mod_mult_self4)
  have eq: "(1611738600 + 60 * (30 * k)) mod 86400 mod 3600 = (600 + 1800 * k) mod 3600"
    unfolding b using a[unfolded b] c by (rule trans)
  have "(600 + 1800 * k) mod 3600 = 600 \<or> (600 + 1800 * k) mod 3600 = 2400"
  proof (cases "even k")
    case True
    then obtain j where "k = 2 * j" by (elim evenE)
    then have "600 + 1800 * k = 3600 * j + 600" by simp
    then have "(600 + 1800 * k) mod 3600 = 600 mod 3600"
      by (simp only: mod_mult_self4)
    then show ?thesis by simp
  next
    case False
    then obtain j where "k = 2 * j + 1" by (elim oddE)
    then have "600 + 1800 * k = 3600 * j + 2400" by simp
    then have "(600 + 1800 * k) mod 3600 = 2400 mod 3600"
      by (simp only: mod_mult_self4)
    then show ?thesis by simp
  qed
  then show ?thesis
    unfolding eq by auto
qed

lemma validate_fields:
  assumes "validate p = Inr cfg"
  shows "parse_frequency (upload_frequency p) = Inr (frequency_minutes cfg)"
    and "parse_timezone (timezone_offset p) = Inr (offset_minutes cfg)"
    and "parse_delimiter (component_delimiter p) = Inr (delimiter cfg)"
    and "parse_format (timestamp_format p) = Inr (format cfg)"
  using assms by (auto simp: validate_def split: sum.splits if_splits)

lemma frequency_positive:
  "parse_frequency s = Inr f \<Longrightarrow> f \<in> {5, 10, 15, 30, 60}"
  by (auto simp: parse_frequency_def split: if_splits)

lemma never_matches_081500:
  assumes "upload_frequency p = ''PT5M''" and "timestamp_format p = ''yyyyMMddHHmmss''"
  shows "\<not> matched p component (utc 2021 1 27 9 15 0) (prefix @ ''20210127081500.csv'')"
proof
  assume "matched p component (utc 2021 1 27 9 15 0) (prefix @ ''20210127081500.csv'')"
  then obtain cfg where cfg: "validate p = Inr cfg"
    and key: "component @ delimiter cfg
                @ render (format cfg) (offset_minutes cfg) (filename_timestamp cfg 1611738900) @ ''.csv''
              = prefix @ ''20210127081500.csv''"
    by (auto simp: matched_def expected_key_def utc_fire_time split: sum.splits)
  from validate_fields(1)[OF cfg] assms(1) have f: "frequency_minutes cfg = 5"
    by (simp add: parse_frequency_def)
  from validate_fields(4)[OF cfg] assms(2) have fmt: "format cfg = Compact"
    by (simp add: parse_format_def)
  from validate_fields(2)[OF cfg] obtain k where k: "offset_minutes cfg = 30 * k"
    using parse_timezone_half_hours by blast
  define M where "M = (1611738600 + 60 * (30 * k)) mod 86400 mod 3600 div 60"
  define S where "S = (1611738600 + 60 * (30 * k)) mod 86400 mod 60"
  from render_compact_shape[of "30 * k" 1611738600] obtain a where
    a: "render Compact (30 * k) 1611738600 = a @ padded 2 M @ padded 2 S"
    unfolding M_def S_def by blast
  have M: "0 \<le> M" "M < 60"
    unfolding M_def by (simp_all add: pos_imp_zdiv_nonneg_iff)
  have S: "0 \<le> S" "S < 60"
    unfolding S_def by simp_all
  from M have lM: "length (padded 2 M) = 2" by (intro length_padded_two) auto
  from S have lS: "length (padded 2 S) = 2" by (intro length_padded_two) auto
  from key have "((component @ delimiter cfg @ a) @ padded 2 M) @ (padded 2 S @ ''.csv'')
      = ((prefix @ ''2021012708'') @ ''15'') @ ''00.csv''"
    by (simp add: f fmt k filename_timestamp_def a)
  then have "(component @ delimiter cfg @ a) @ padded 2 M = (prefix @ ''2021012708'') @ ''15''"
    by (subst (asm) append_eq_append_conv) (simp_all add: lS)
  then have "padded 2 M = ''15''"
    by (subst (asm) append_eq_append_conv) (simp_all add: lM)
  with M have "M = 15"
    by (intro padded_two_15)
  with minute_of_run[of k] show False
    by (simp add: M_def)
qed

text \<open>
  Claim C1. For every valid configuration and fire time, the filename timestamp is the
  fire time minus the upload frequency, the start of the data window and strictly
  before the fire time, and the expected key is built from it. For the fire time
  2021-01-27T09:15:00Z and a 5 minute frequency it is rendered per
  \<^verbatim>\<open>yyyyMMddHHmmss\<close> as 20210127091000 (the notebook's parameters give the key
  \<^verbatim>\<open>centrifugal-pump_20210127091000.csv\<close>), and under no valid timezone offset,
  delimiter or delay does that run match a file whose name ends in
  \<^verbatim>\<open>20210127081500.csv\<close>.
\<close>

theorem expected_filename_timestamp:
  "(validate p = Inr cfg \<longrightarrow>
      filename_timestamp cfg T = T - 60 * frequency_minutes cfg
      \<and> filename_timestamp cfg T < T
      \<and> data_window cfg T = (filename_timestamp cfg T, T)
      \<and> expected_key p component T =
          Inr (component @ delimiter cfg
               @ render (format cfg) (offset_minutes cfg) (T - 60 * frequency_minutes cfg) @ ''.csv''))
   \<and> render Compact 0 (utc 2021 1 27 9 15 0 - 60 * 5) = ''20210127091000''
   \<and> expected_key notebook_params ''centrifugal-pump'' (utc 2021 1 27 9 15 0)
       = Inr ''centrifugal-pump_20210127091000.csv''
   \<and> (upload_frequency p = ''PT5M'' \<and> timestamp_format p = ''yyyyMMddHHmmss'' \<longrightarrow>
        \<not> matched p component (utc 2021 1 27 9 15 0) (prefix @ ''20210127081500.csv''))"
proof (intro conjI impI)
  assume cfg: "validate p = Inr cfg"
  show "filename_timestamp cfg T = T - 60 * frequency_minutes cfg"
    by (simp add: filename_timestamp_def)
  from frequency_positive[OF validate_fields(1)[OF cfg]]
  show "filename_timestamp cfg T < T"
    by (auto simp: filename_timestamp_def)
  show "data_window cfg T = (filename_timestamp cfg T, T)"
    by (simp add: data_window_def filename_timestamp_def)
  show "expected_key p component T =
          Inr (component @ delimiter cfg
               @ render (format cfg) (offset_minutes cfg) (T - 60 * frequency_minutes cfg) @ ''.csv'')"
    by (simp add: expected_key_def cfg filename_timestamp_def)
next
  show "render Compact 0 (utc 2021 1 27 9 15 0 - 60 * 5) = ''20210127091000''"
    by (simp add: utc_fire_time render_compact_fire)
next
  show "expected_key notebook_params ''centrifugal-pump'' (utc 2021 1 27 9 15 0)
       = Inr ''centrifugal-pump_20210127091000.csv''"
    by (rule key_notebook)
next
  assume "upload_frequency p = ''PT5M'' \<and> timestamp_format p = ''yyyyMMddHHmmss''"
  then show "\<not> matched p component (utc 2021 1 27 9 15 0) (prefix @ ''20210127081500.csv'')"
    using never_matches_081500 by blast
qed

theorem expected_filename_timestamp_witness:
  "validate notebook_params =
     Inr \<lparr>frequency_minutes = 5, delay_minutes = 2, offset_minutes = 0, delimiter = ''_'', format = Compact\<rparr>
   \<and> filename_timestamp
        \<lparr>frequency_minutes = 5, delay_minutes = 2, offset_minutes = 0, delimiter = ''_'', format = Compact\<rparr>
        (utc 2021 1 27 9 15 0) = utc 2021 1 27 9 10 0
   \<and> upload_frequency notebook_params = ''PT5M''
   \<and> timestamp_format notebook_params = ''yyyyMMddHHmmss''
   \<and> \<not> matched notebook_params ''centrifugal-pump'' (utc 2021 1 27 9 15 0)
         (''centrifugal-pump_'' @ ''20210127081500.csv'')"
proof -
  let ?cfg = "\<lparr>frequency_minutes = 5, delay_minutes = 2, offset_minutes = 0, delimiter = ''_'', format = Compact\<rparr>"
  have v: "validate notebook_params = Inr ?cfg"
    by (rule validate_notebook)
  have pf: "upload_frequency notebook_params = ''PT5M'' \<and> timestamp_format notebook_params = ''yyyyMMddHHmmss''"
    by (simp add: notebook_params_def)
  have t: "utc 2021 1 27 9 10 0 = utc 2021 1 27 9 15 0 - 60 * 5"
    by (simp add: utc_def)
  note inst = expected_filename_timestamp[of notebook_params ?cfg "utc 2021 1 27 9 15 0"
      "''centrifugal-pump''" "''centrifugal-pump_''"]
  from inst[THEN conjunct1, rule_format, OF v] have
    "filename_timestamp ?cfg (utc 2021 1 27 9 15 0) = utc 2021 1 27 9 10 0"
    by (simp add: t)
  moreover from inst[THEN conjunct2, THEN conjunct2, THEN conjunct2, rule_format, OF pf] have
    "\<not> matched notebook_params ''centrifugal-pump'' (utc 2021 1 27 9 15 0)
         (''centrifugal-pump_'' @ ''20210127081500.csv'')" .
  ultimately show ?thesis
    using v pf by (intro conjI) simp_all
qed

text \<open>
  Claim C2. The successful transitions of the controller are exactly the four of the
  state machine. From UNCREATED, \<^verbatim>\<open>create\<close> gives RUNNING at once; a second
  \<^verbatim>\<open>create\<close> for the same model fails with \<open>AlreadyExists\<close>; \<^verbatim>\<open>delete\<close> while
  RUNNING fails with \<open>InvalidState\<close>; \<^verbatim>\<open>stop\<close> and then \<^verbatim>\<open>delete\<close> succeed and
  give DELETED; \<^verbatim>\<open>stop\<close> and then \<^verbatim>\<open>start\<close> give RUNNING again.
\<close>

theorem lifecycle_state_machine:
  "(transition s r = Inr s' \<longleftrightarrow>
      (s, r, s') \<in> {(UNCREATED, Create, RUNNING), (RUNNING, Stop, STOPPED),
                     (STOPPED, Start, RUNNING), (STOPPED, Delete, DELETED)})
   \<and> (schedules model = UNCREATED \<longrightarrow>
        lifecycle_run schedules model [Create] = Inr (schedules(model := RUNNING))
        \<and> lifecycle_run schedules model [Create, Create] = Inl AlreadyExists
        \<and> lifecycle_run schedules model [Create, Delete] = Inl InvalidState
        \<and> lifecycle_run schedules model [Create, Stop, Delete] = Inr (schedules(model := DELETED))
        \<and> lifecycle_run schedules model [Create, Stop, Start] = Inr (schedules(model := RUNNING)))"
proof (intro conjI impI)
  show "transition s r = Inr s' \<longleftrightarrow>
      (s, r, s') \<in> {(UNCREATED, Create, RUNNING), (RUNNING, Stop, STOPPED),
                     (STOPPED, Start, RUNNING), (STOPPED, Delete, DELETED)}"
    by (cases s; cases r) auto
qed (simp_all add: lifecycle_def)

theorem lifecycle_state_machine_witness:
  "(\<lambda>_. UNCREATED) ''pump-model'' = UNCREATED
   \<and> lifecycle_run (\<lambda>_. UNCREATED) ''pump-model'' [Create] = Inr ((\<lambda>_. UNCREATED)(''pump-model'' := RUNNING))
   \<and> lifecycle_run (\<lambda>_. UNCREATED) ''pump-model'' [Create, Create] = Inl AlreadyExists
   \<and> lifecycle_run (\<lambda>_. UNCREATED) ''pump-model'' [Create, Delete] = Inl InvalidState
   \<and> lifecycle_run (\<lambda>_. UNCREATED) ''pump-model'' [Create, Stop, Delete]
       = Inr ((\<lambda>_. UNCREATED)(''pump-model'' := DELETED))
   \<and> lifecycle_run (\<lambda>_. UNCREATED) ''pump-model'' [Create, Stop, Start]
       = Inr ((\<lambda>_. UNCREATED)(''pump-model'' := RUNNING))"
proof -
  have u: "(\<lambda>_. UNCREATED) ''pump-model'' = UNCREATED" by simp
  from lifecycle_state_machine[of UNCREATED Create RUNNING "\<lambda>_. UNCREATED" "''pump-model''",
      THEN conjunct2, rule_format, OF u] u
  show ?thesis by blast
qed

lemma map_of_upsert: "map_of (upsert k v xs) = (map_of xs)(k \<mapsto> v)"
  by (induction xs) (auto simp: fun_upd_twist)

lemma keys_upsert: "set (map fst (upsert k v xs)) = insert k (set (map fst xs))"
  by (induction xs) auto

lemma sorted_upsert:
  "sorted_wrt (<) (map fst xs) \<Longrightarrow> sorted_wrt (<) (map fst (upsert k v xs))"
proof (induction xs)
  case Nil
  then show ?case by simp
next
  case (Cons x xs)
  have "set (map fst (upsert k v xs)) = insert k (set (map fst xs))"
    by (rule keys_upsert)
  with Cons show ?case by (auto simp: less_le)
qed

lemma sorted_accumulate:
  "sorted_wrt (<) (map fst view) \<Longrightarrow> sorted_wrt (<) (map fst (accumulate es view))"
  unfolding accumulate_def
  by (induction es arbitrary: view) (simp_all add: sorted_upsert)

lemma map_of_accumulate:
  "map_of (accumulate es view) = map_of view ++ map_of (rev (map (\<lambda>e. (ScheduledStartTime e, e)) es))"
  unfolding accumulate_def
proof (induction es arbitrary: view)
  case Nil
  then show ?case by simp
next
  case (Cons e es)
  have "map_of (fold (\<lambda>e. upsert (ScheduledStartTime e) e) es (upsert (ScheduledStartTime e) e view))
      = map_of (upsert (ScheduledStartTime e) e view)
          ++ map_of (rev (map (\<lambda>e. (ScheduledStartTime e, e)) es))"
    by (rule Cons.IH)
  then show ?case
    by (simp add: map_of_upsert map_add_def fun_eq_iff split: option.splits)
qed

lemma sorted_keys_unique:
  fixes xs ys :: "(int \<times> 'a) list"
  assumes "sorted_wrt (<) (map fst xs)" and "sorted_wrt (<) (map fst ys)" and "map_of xs = map_of ys"
  shows "xs = ys"
proof -
  from assms(1,2) have s: "sorted (map fst xs)" "distinct (map fst xs)" "sorted (map fst ys)" "distinct (map fst ys)"
    by (simp_all add: strict_sorted_iff)
  with assms(3) have set: "set xs = set ys"
    by (simp add: map_of_inject_set)
  from s(2) have "inj_on fst (set xs)"
    by (simp add: distinct_map)
  with set have "inj_on fst (set xs \<union> set ys)" by simp
  then show ?thesis
    using s set by (rule map_sorted_distinct_set_unique)
qed

lemma accumulate_twice:
  assumes "sorted_wrt (<) (map fst view)"
  shows "accumulate es (accumulate es view) = accumulate es view"
proof (rule sorted_keys_unique)
  show "sorted_wrt (<) (map fst (accumulate es (accumulate es view)))"
    by (intro sorted_accumulate assms)
  show "sorted_wrt (<) (map fst (accumulate es view))"
    by (intro sorted_accumulate assms)
  show "map_of (accumulate es (accumulate es view)) = map_of (accumulate es view)"
    unfolding map_of_accumulate
    by (rule ext) (simp add: map_add_def split: option.splits)
qed

lemma accumulate_keys:
  "\<forall>x\<in>set view. fst x = ScheduledStartTime (snd x) \<Longrightarrow>
   \<forall>x\<in>set (accumulate es view). fst x = ScheduledStartTime (snd x)"
  unfolding accumulate_def
proof (induction es arbitrary: view)
  case Nil
  then show ?case by simp
next
  case (Cons e es)
  have "\<forall>x\<in>set (upsert (ScheduledStartTime e) e view). fst x = ScheduledStartTime (snd x)"
    using Cons.prems by (induction view) auto
  from Cons.IH[OF this] show ?case by simp
qed

lemma accumulate_members:
  "set (map snd (accumulate es [])) \<subseteq> set es"
proof -
  have "set (map snd (accumulate es view)) \<subseteq> set es \<union> set (map snd view)" for view
    unfolding accumulate_def
  proof (induction es arbitrary: view)
    case Nil
    then show ?case by simp
  next
    case (Cons e es)
    have "set (map snd (upsert (ScheduledStartTime e) e view)) \<subseteq> insert e (set (map snd view))"
      by (induction view) auto
    with Cons.IH[of "upsert (ScheduledStartTime e) e view"] show ?case by auto
  qed
  from this[of "[]"] show ?thesis by simp
qed

text \<open>
  Claim C6. Calling the list method a second time with the same filters against the
  same executions on the service returns the same sequence as the first call; the
  sequence is in strictly ascending order of fire time and holds only executions of
  this schedule that pass the filters; and the second call leaves the accumulated view
  as the first call left it, provided the view was ordered by fire time to begin with.
\<close>

theorem list_idempotent:
  "fst (list_inference_executions remote f (snd (list_inference_executions remote f p)))
     = fst (list_inference_executions remote f p)
   \<and> sorted_wrt (<) (map ScheduledStartTime (fst (list_inference_executions remote f p)))
   \<and> (\<forall>e\<in>set (fst (list_inference_executions remote f p)).
         passes f e \<and> (scheduler_name p, e) \<in> set remote)
   \<and> (sorted_wrt (<) (map fst (accumulated p)) \<longrightarrow>
        snd (list_inference_executions remote f (snd (list_inference_executions remote f p)))
          = snd (list_inference_executions remote f p))"
proof (intro conjI impI ballI)
  define fetched where
    "fetched = filter (passes f) (map snd (filter (\<lambda>x. fst x = scheduler_name p) remote))"
  have first: "list_inference_executions remote f p =
      (map snd (accumulate fetched []), p\<lparr>accumulated := accumulate fetched (accumulated p)\<rparr>)"
    by (simp add: list_inference_executions_def fetched_def Let_def)
  have second: "list_inference_executions remote f (p\<lparr>accumulated := accumulate fetched (accumulated p)\<rparr>) =
      (map snd (accumulate fetched []),
       p\<lparr>accumulated := accumulate fetched (accumulate fetched (accumulated p))\<rparr>)"
    by (simp add: list_inference_executions_def fetched_def Let_def)
  show "fst (list_inference_executions remote f (snd (list_inference_executions remote f p)))
     = fst (list_inference_executions remote f p)"
    by (simp add: first second)
  have keys: "\<forall>x\<in>set (accumulate fetched []). fst x = ScheduledStartTime (snd x)"
    by (rule accumulate_keys) simp
  then have "map ScheduledStartTime (map snd (accumulate fetched [])) = map fst (accumulate fetched [])"
    by simp
  moreover have "sorted_wrt (<) (map fst (accumulate fetched []))"
    by (rule sorted_accumulate) simp
  ultimately show "sorted_wrt (<) (map ScheduledStartTime (fst (list_inference_executions remote f p)))"
    by (simp only: first fst_conv)
  have mem: "passes f e \<and> (scheduler_name p, e) \<in> set remote"
    if "e \<in> set (fst (list_inference_executions remote f p))" for e
  proof -
    from that have "e \<in> set (map snd (accumulate fetched []))"
      by (simp only: first fst_conv)
    with accumulate_members[of fetched] have "e \<in> set fetched" by blast
    then show ?thesis
      by (auto simp: fetched_def)
  qed
  show "passes f e" if "e \<in> set (fst (list_inference_executions remote f p))" for e
    using mem[OF that] by simp
  show "(scheduler_name p, e) \<in> set remote"
    if "e \<in> set (fst (list_inference_executions remote f p))" for e
    using mem[OF that] by simp
  {
    assume "sorted_wrt (<) (map fst (accumulated p))"
    then have "accumulate fetched (accumulate fetched (accumulated p)) = accumulate fetched (accumulated p)"
      by (rule accumulate_twice)
    then show "snd (list_inference_executions remote f (snd (list_inference_executions remote f p)))
          = snd (list_inference_executions remote f p)"
      by (simp add: first second)
  }
qed

theorem list_idempotent_witness:
  "sorted_wrt (<) (map fst (accumulated \<lparr>scheduler_name = ''pump-scheduler'', accumulated = []\<rparr>))
   \<and> fst (list_inference_executions
        [(''pump-scheduler'', sample_summary 1617826200 ''2021-04-07T20:10:00Z''),
         (''other-scheduler'', sample_summary 1617826000 ''2021-04-07T20:06:40Z''),
         (''pump-scheduler'', sample_summary 1617825900 ''2021-04-07T20:05:00Z'')]
        \<lparr>start_time = None, end_time = None, execution_status = None\<rparr>
        \<lparr>scheduler_name = ''pump-scheduler'', accumulated = []\<rparr>)
      = [sample_summary 1617825900 ''2021-04-07T20:05:00Z'',
         sample_summary 1617826200 ''2021-04-07T20:10:00Z'']
   \<and> snd (list_inference_executions
        [(''pump-scheduler'', sample_summary 1617826200 ''2021-04-07T20:10:00Z''),
         (''other-scheduler'', sample_summary 1617826000 ''2021-04-07T20:06:40Z''),
         (''pump-scheduler'', sample_summary 1617825900 ''2021-04-07T20:05:00Z'')]
        \<lparr>start_time = None, end_time = None, execution_status = None\<rparr>
        (snd (list_inference_executions
          [(''pump-scheduler'', sample_summary 1617826200 ''2021-04-07T20:10:00Z''),
           (''other-scheduler'', sample_summary 1617826000 ''2021-04-07T20:06:40Z''),
           (''pump-scheduler'', sample_summary 1617825900 ''2021-04-07T20:05:00Z'')]
          \<lparr>start_time = None, end_time = None, execution_status = None\<rparr>
          \<lparr>scheduler_name = ''pump-scheduler'', accumulated = []\<rparr>)))
      = snd (list_inference_executions
          [(''pump-scheduler'', sample_summary 1617826200 ''2021-04-07T20:10:00Z''),
           (''other-scheduler'', sample_summary 1617826000 ''2021-04-07T20:06:40Z''),
           (''pump-scheduler'', sample_summary 1617825900 ''2021-04-07T20:05:00Z'')]
          \<lparr>start_time = None, end_time = None, execution_status = None\<rparr>
          \<lparr>scheduler_name = ''pump-scheduler'', accumulated = []\<rparr>)"
proof (intro conjI)
  let ?remote = "[(''pump-scheduler'', sample_summary 1617826200 ''2021-04-07T20:10:00Z''),
         (''other-scheduler'', sample_summary 1617826000 ''2021-04-07T20:06:40Z''),
         (''pump-scheduler'', sample_summary 1617825900 ''2021-04-07T20:05:00Z'')]"
  let ?f = "\<lparr>start_time = None, end_time = None, execution_status = None\<rparr>"
  let ?p = "\<lparr>scheduler_name = ''pump-scheduler'', accumulated = []\<rparr>"
  show s: "sorted_wrt (<) (map fst (accumulated ?p))" by simp
  show "fst (list_inference_executions ?remote ?f ?p)
      = [sample_summary 1617825900 ''2021-04-07T20:05:00Z'',
         sample_summary 1617826200 ''2021-04-07T20:10:00Z'']"
    by (simp add: list_inference_executions_def accumulate_def passes_def sample_summary_def Let_def)
  from list_idempotent[of ?remote ?f ?p, THEN conjunct2, THEN conjunct2, THEN conjunct2, rule_format, OF s]
  show "snd (list_inference_executions ?remote ?f (snd (list_inference_executions ?remote ?f ?p)))
      = snd (list_inference_executions ?remote ?f ?p)" .
qed

end
